theory Spec2Isabelle
  imports Main "HOL-Library.Word"
begin

section \<open>LogFlux C SDK: error codes and enumerations (logflux_client.h)\<close>

text \<open>
  The error enumeration \<^verbatim>\<open>logflux_error_t\<close>. The SDK only ever returns the seven listed
  codes, so a datatype is exact.
\<close>

datatype logflux_error =
    LOGFLUX_OK
  | LOGFLUX_ERROR_INVALID_PARAM
  | LOGFLUX_ERROR_MEMORY
  | LOGFLUX_ERROR_CONNECTION
  | LOGFLUX_ERROR_TIMEOUT
  | LOGFLUX_ERROR_FORMAT
  | LOGFLUX_ERROR_NOT_CONNECTED

text \<open>
  Levels, entry types and connection types are C enums, that is integers: a caller can pass
  any integer where the enum is expected, and the code range-checks levels and types itself.
  They are modelled as \<open>int\<close>, the enumerators as constants.
\<close>

definition LOGFLUX_LEVEL_EMERGENCY :: int where "LOGFLUX_LEVEL_EMERGENCY = 0"
definition LOGFLUX_LEVEL_ALERT :: int where "LOGFLUX_LEVEL_ALERT = 1"
definition LOGFLUX_LEVEL_CRITICAL :: int where "LOGFLUX_LEVEL_CRITICAL = 2"
definition LOGFLUX_LEVEL_ERROR :: int where "LOGFLUX_LEVEL_ERROR = 3"
definition LOGFLUX_LEVEL_WARNING :: int where "LOGFLUX_LEVEL_WARNING = 4"
definition LOGFLUX_LEVEL_NOTICE :: int where "LOGFLUX_LEVEL_NOTICE = 5"
definition LOGFLUX_LEVEL_INFO :: int where "LOGFLUX_LEVEL_INFO = 6"
definition LOGFLUX_LEVEL_DEBUG :: int where "LOGFLUX_LEVEL_DEBUG = 7"

definition LOGFLUX_TYPE_LOG :: int where "LOGFLUX_TYPE_LOG = 1"
definition LOGFLUX_TYPE_METRIC :: int where "LOGFLUX_TYPE_METRIC = 2"
definition LOGFLUX_TYPE_TRACE :: int where "LOGFLUX_TYPE_TRACE = 3"
definition LOGFLUX_TYPE_EVENT :: int where "LOGFLUX_TYPE_EVENT = 4"
definition LOGFLUX_TYPE_AUDIT :: int where "LOGFLUX_TYPE_AUDIT = 5"

definition LOGFLUX_CONN_UNIX :: int where "LOGFLUX_CONN_UNIX = 0"
definition LOGFLUX_CONN_TCP :: int where "LOGFLUX_CONN_TCP = 1"

section \<open>The C heap and the environment\<close>

text \<open>
  Pointers are addresses, \<open>None\<close> is \<^verbatim>\<open>NULL\<close>. A heap block is a C string, an array of
  \<^verbatim>\<open>char*\<close> (the label key and value arrays) or an entry structure.
\<close>

type_synonym addr = nat
type_synonym ptr = "addr option"

text \<open>\<^verbatim>\<open>struct logflux_entry\<close>; the anonymous \<^verbatim>\<open>labels\<close> struct is flattened.\<close>

record logflux_entry =
  e_id :: ptr
  e_message :: ptr
  e_source :: ptr
  e_level :: int
  e_type :: int
  e_timestamp :: int
  labels_keys :: ptr
  labels_values :: ptr
  labels_count :: nat
  labels_capacity :: nat

datatype block =
    Chars string
  | PtrArray "ptr list"
  | EntryStruct logflux_entry

text \<open>
  What the allocator answers to one request: failure, a block at a new address, or (for
  \<^verbatim>\<open>realloc\<close> only) the old block resized in place.
\<close>

datatype alloc_outcome = Fails | Fresh | InPlace

text \<open>The system calls the SDK makes, as they appear in the I/O trace.\<close>

datatype sock_domain = AF_UNIX | AF_INET

datatype sock_opt = SO_RCVTIMEO | SO_SNDTIMEO

datatype sock_addr = UnixAddr string | InetAddr string "16 word"

datatype io_event =
    Socket sock_domain
  | SetSockOpt int sock_opt nat nat
  | InetPton string
  | Connect int sock_addr
  | Close int
  | Send int string

text \<open>
  The world the SDK runs in: the live heap blocks, the next unused address, the outcomes of
  the coming allocation requests (an exhausted plan means the request succeeds), the return
  values of the coming system calls (an exhausted plan means \<open>-1\<close>), the trace of system
  calls made so far, and a flag raised when the C code does something the language leaves
  undefined (a write past a buffer, a read through a dangling pointer, a double free).
  Once \<open>ub\<close> is raised, results are nominal.
\<close>

record world =
  heap :: "addr \<Rightarrow> block option"
  next_addr :: addr
  allocs :: "alloc_outcome list"
  sys :: "int list"
  trace :: "io_event list"
  ub :: bool

definition next_alloc :: "world \<Rightarrow> alloc_outcome \<times> world" where
  "next_alloc w =
     ((case allocs w of [] \<Rightarrow> Fresh | a # _ \<Rightarrow> a), w\<lparr>allocs := tl (allocs w)\<rparr>)"

definition new_block :: "block \<Rightarrow> world \<Rightarrow> ptr \<times> world" where
  "new_block b w =
     (Some (next_addr w),
      w\<lparr>heap := (heap w)(next_addr w \<mapsto> b), next_addr := Suc (next_addr w)\<rparr>)"

text \<open>
  \<^verbatim>\<open>malloc\<close>/\<^verbatim>\<open>calloc\<close>, given the contents the caller puts into the block right away.
\<close>

definition malloc :: "block \<Rightarrow> world \<Rightarrow> ptr \<times> world" where
  "malloc b w =
     (case next_alloc w of
        (Fails, w1) \<Rightarrow> (None, w1)
      | (_, w1) \<Rightarrow> new_block b w1)"

definition strdup :: "string \<Rightarrow> world \<Rightarrow> ptr \<times> world" where
  "strdup s w = malloc (Chars s) w"

text \<open>\<^verbatim>\<open>free\<close>: \<^verbatim>\<open>free(NULL)\<close> does nothing; freeing a block that is not live is undefined.\<close>

definition free :: "ptr \<Rightarrow> world \<Rightarrow> world" where
  "free p w =
     (case p of
        None \<Rightarrow> w
      | Some a \<Rightarrow> (if heap w a = None then w\<lparr>ub := True\<rparr> else w\<lparr>heap := (heap w)(a := None)\<rparr>))"

text \<open>
  \<^verbatim>\<open>realloc\<close> of an array of \<open>n\<close> pointers. On failure the old block stays as it is. On
  success the first slots keep their contents; the new ones are indeterminate in C and shown
  as \<^verbatim>\<open>NULL\<close> here (the SDK never reads a slot at or above \<^verbatim>\<open>labels.count\<close>).
\<close>

definition realloc :: "ptr \<Rightarrow> nat \<Rightarrow> world \<Rightarrow> ptr \<times> world" where
  "realloc p n w =
     (case next_alloc w of
        (Fails, w1) \<Rightarrow> (None, w1)
      | (how, w1) \<Rightarrow>
          (case p of
             None \<Rightarrow> new_block (PtrArray (replicate n None)) w1
           | Some a \<Rightarrow>
               (case heap w1 a of
                  Some (PtrArray xs) \<Rightarrow>
                    (let ys = take n xs @ replicate (n - length xs) None
                     in if how = InPlace
                        then (Some a, w1\<lparr>heap := (heap w1)(a \<mapsto> PtrArray ys)\<rparr>)
                        else new_block (PtrArray ys) (w1\<lparr>heap := (heap w1)(a := None)\<rparr>))
                | _ \<Rightarrow> (None, w1\<lparr>ub := True\<rparr>))))"

text \<open>The C string a pointer refers to, if it refers to one.\<close>

definition cstr :: "world \<Rightarrow> ptr \<Rightarrow> string option" where
  "cstr w p =
     (case p of
        None \<Rightarrow> None
      | Some a \<Rightarrow> (case heap w a of Some (Chars s) \<Rightarrow> Some s | _ \<Rightarrow> None))"

text \<open>The entry structure an entry pointer refers to, if it refers to one.\<close>

definition entry_at :: "world \<Rightarrow> addr \<Rightarrow> logflux_entry option" where
  "entry_at w a = (case heap w a of Some (EntryStruct e) \<Rightarrow> Some e | _ \<Rightarrow> None)"

definition put_entry :: "addr \<Rightarrow> logflux_entry \<Rightarrow> world \<Rightarrow> world" where
  "put_entry a e w = w\<lparr>heap := (heap w)(a \<mapsto> EntryStruct e)\<rparr>"

text \<open>Every address from \<open>next_addr\<close> on is unused.\<close>

definition heap_ok :: "world \<Rightarrow> bool" where
  "heap_ok w = (\<forall>a. next_addr w \<le> a \<longrightarrow> heap w a = None)"

section \<open>Log entry functions\<close>

text \<open>
  \<^verbatim>\<open>logflux_entry_set_level\<close>: rejects a \<^verbatim>\<open>NULL\<close> entry and a level below
  \<^verbatim>\<open>LOGFLUX_LEVEL_EMERGENCY\<close> or above \<^verbatim>\<open>LOGFLUX_LEVEL_DEBUG\<close>; otherwise stores the level.
\<close>

definition logflux_entry_set_level :: "ptr \<Rightarrow> int \<Rightarrow> world \<Rightarrow> logflux_error \<times> world" where
  "logflux_entry_set_level entry lvl w =
     (case entry of
        None \<Rightarrow> (LOGFLUX_ERROR_INVALID_PARAM, w)
      | Some a \<Rightarrow>
          (if lvl < LOGFLUX_LEVEL_EMERGENCY \<or> lvl > LOGFLUX_LEVEL_DEBUG
           then (LOGFLUX_ERROR_INVALID_PARAM, w)
           else (case entry_at w a of
                   None \<Rightarrow> (LOGFLUX_ERROR_INVALID_PARAM, w\<lparr>ub := True\<rparr>)
                 | Some e \<Rightarrow> (LOGFLUX_OK, put_entry a (e\<lparr>e_level := lvl\<rparr>) w))))"

text \<open>
  \<^verbatim>\<open>generate_uuid\<close>: the 36 characters \<^verbatim>\<open>uuid_unparse\<close> writes come from the system's
  random source and are a parameter here; the function allocates the 37 bytes holding them.
\<close>

definition generate_uuid :: "string \<Rightarrow> world \<Rightarrow> ptr \<times> world" where
  "generate_uuid uuid w = malloc (Chars uuid) w"

text \<open>Slot \<open>i\<close> of a pointer array, when the array is live and has such a slot.\<close>

definition slot :: "world \<Rightarrow> ptr \<Rightarrow> nat \<Rightarrow> ptr option" where
  "slot w p i =
     (case p of
        None \<Rightarrow> None
      | Some a \<Rightarrow>
          (case heap w a of
             Some (PtrArray xs) \<Rightarrow> (if i < length xs then Some (xs ! i) else None)
           | _ \<Rightarrow> None))"

definition set_slot :: "ptr \<Rightarrow> nat \<Rightarrow> ptr \<Rightarrow> world \<Rightarrow> world" where
  "set_slot p i v w =
     (case p of
        None \<Rightarrow> w\<lparr>ub := True\<rparr>
      | Some a \<Rightarrow>
          (case heap w a of
             Some (PtrArray xs) \<Rightarrow>
               (if i < length xs then w\<lparr>heap := (heap w)(a \<mapsto> PtrArray (xs[i := v]))\<rparr>
                else w\<lparr>ub := True\<rparr>)
           | _ \<Rightarrow> w\<lparr>ub := True\<rparr>))"

text \<open>
  The loop of \<^verbatim>\<open>logflux_entry_free\<close> over the labels, for the indices still to visit:
  \<^verbatim>\<open>free(keys[i]); free(values[i])\<close>.
\<close>

fun free_labels :: "logflux_entry \<Rightarrow> nat list \<Rightarrow> world \<Rightarrow> world" where
  "free_labels e [] w = w"
| "free_labels e (i # is) w =
     (case slot w (labels_keys e) i of
        None \<Rightarrow> w\<lparr>ub := True\<rparr>
      | Some k \<Rightarrow>
          (let w1 = free k w
           in case slot w1 (labels_values e) i of
                None \<Rightarrow> w1\<lparr>ub := True\<rparr>
              | Some v \<Rightarrow> free_labels e is (free v w1)))"

definition logflux_entry_free :: "ptr \<Rightarrow> world \<Rightarrow> world" where
  "logflux_entry_free entry w =
     (case entry of
        None \<Rightarrow> w
      | Some a \<Rightarrow>
          (case entry_at w a of
             None \<Rightarrow> w\<lparr>ub := True\<rparr>
           | Some e \<Rightarrow>
               (let w1 = free (e_id e) w;
                    w2 = free (e_message e) w1;
                    w3 = free (e_source e) w2;
                    w4 = free_labels e [0 ..< labels_count e] w3;
                    w5 = free (labels_keys e) w4;
                    w6 = free (labels_values e) w5
                in free (Some a) w6)))"

text \<open>What \<^verbatim>\<open>calloc\<close> hands out for an entry: every field zero.\<close>

definition zero_entry :: logflux_entry where
  "zero_entry =
     \<lparr>e_id = None, e_message = None, e_source = None, e_level = 0, e_type = 0,
      e_timestamp = 0, labels_keys = None, labels_values = None, labels_count = 0,
      labels_capacity = 0\<rparr>"

text \<open>
  \<^verbatim>\<open>logflux_entry_new\<close>. \<open>uuid\<close> is the text of the generated identifier and \<open>now\<close> the value
  of \<^verbatim>\<open>time(NULL)\<close>. The three strings are all requested before any of them is checked.
\<close>

definition logflux_entry_new :: "string \<Rightarrow> int \<Rightarrow> string option \<Rightarrow> world \<Rightarrow> ptr \<times> world" where
  "logflux_entry_new uuid now message w =
     (case message of
        None \<Rightarrow> (None, w)
      | Some msg \<Rightarrow>
          (case malloc (EntryStruct zero_entry) w of
             (None, w1) \<Rightarrow> (None, w1)
           | (Some a, w1) \<Rightarrow>
               (let (i, w2) = generate_uuid uuid w1;
                    (m, w3) = strdup msg w2;
                    (s, w4) = strdup ''c-sdk'' w3;
                    e = zero_entry\<lparr>e_id := i, e_message := m, e_source := s,
                          e_level := LOGFLUX_LEVEL_INFO, e_type := LOGFLUX_TYPE_LOG,
                          e_timestamp := now\<rparr>;
                    w5 = put_entry a e w4
                in if i = None \<or> m = None \<or> s = None
                   then (None, logflux_entry_free (Some a) w5)
                   else (Some a, w5))))"

text \<open>
  \<^verbatim>\<open>logflux_entry_add_label\<close>, first half: when the arrays are full, both are reallocated
  to the new capacity (4, or twice the old one); if either request fails, both results are
  freed and the entry is not updated. Returns the entry as it is afterwards on success.
\<close>

definition expand_labels :: "addr \<Rightarrow> logflux_entry \<Rightarrow> world \<Rightarrow> logflux_entry option \<times> world" where
  "expand_labels a e w =
     (if labels_count e \<ge> labels_capacity e
      then (let new_capacity = (if labels_capacity e = 0 then 4 else labels_capacity e * 2);
                (new_keys, w1) = realloc (labels_keys e) new_capacity w;
                (new_values, w2) = realloc (labels_values e) new_capacity w1
            in if new_keys = None \<or> new_values = None
               then (None, free new_values (free new_keys w2))
               else (let e' = e\<lparr>labels_keys := new_keys, labels_values := new_values,
                                 labels_capacity := new_capacity\<rparr>
                     in (Some e', put_entry a e' w2)))
      else (Some e, w))"

text \<open>
  Second half: both strings are duplicated; if either copy fails both are freed, otherwise
  they are stored at index \<^verbatim>\<open>labels.count\<close> and the count goes up by one.
\<close>

definition store_label :: "addr \<Rightarrow> logflux_entry \<Rightarrow> string \<Rightarrow> string \<Rightarrow> world \<Rightarrow> logflux_error \<times> world" where
  "store_label a e k v w =
     (let (key_copy, w1) = strdup k w;
          (value_copy, w2) = strdup v w1
      in if key_copy = None \<or> value_copy = None
         then (LOGFLUX_ERROR_MEMORY, free value_copy (free key_copy w2))
         else (let w3 = set_slot (labels_keys e) (labels_count e) key_copy w2;
                   w4 = set_slot (labels_values e) (labels_count e) value_copy w3
               in (LOGFLUX_OK, put_entry a (e\<lparr>labels_count := Suc (labels_count e)\<rparr>) w4)))"

definition logflux_entry_add_label ::
    "ptr \<Rightarrow> string option \<Rightarrow> string option \<Rightarrow> world \<Rightarrow> logflux_error \<times> world" where
  "logflux_entry_add_label entry key val w =
     (case (entry, key, val) of
        (Some a, Some k, Some v) \<Rightarrow>
          (case entry_at w a of
             None \<Rightarrow> (LOGFLUX_ERROR_INVALID_PARAM, w\<lparr>ub := True\<rparr>)
           | Some e \<Rightarrow>
               (case expand_labels a e w of
                  (None, w1) \<Rightarrow> (LOGFLUX_ERROR_MEMORY, w1)
                | (Some e1, w1) \<Rightarrow> store_label a e1 k v w1))
      | _ \<Rightarrow> (LOGFLUX_ERROR_INVALID_PARAM, w))"

text \<open>
  The label sequence an entry holds: the pairs of strings its first \<^verbatim>\<open>labels.count\<close> slots
  point to, or \<open>None\<close> when one of the pointers involved does not lead to a live block.
\<close>

definition label_at :: "world \<Rightarrow> logflux_entry \<Rightarrow> nat \<Rightarrow> (string \<times> string) option" where
  "label_at w e i =
     (case (slot w (labels_keys e) i, slot w (labels_values e) i) of
        (Some k, Some v) \<Rightarrow>
          (case (cstr w k, cstr w v) of (Some ks, Some vs) \<Rightarrow> Some (ks, vs) | _ \<Rightarrow> None)
      | _ \<Rightarrow> None)"

definition entry_labels :: "world \<Rightarrow> logflux_entry \<Rightarrow> (string \<times> string) list option" where
  "entry_labels w e = those (map (label_at w e) [0 ..< labels_count e])"

definition labels_of :: "world \<Rightarrow> addr \<Rightarrow> (string \<times> string) list option" where
  "labels_of w a = (case entry_at w a of None \<Rightarrow> None | Some e \<Rightarrow> entry_labels w e)"

text \<open>A world with nothing allocated, no planned failures and no I/O behind it.\<close>

definition empty_world :: world where
  "empty_world =
     \<lparr>heap = (\<lambda>_. None), next_addr = 0, allocs = [], sys = [], trace = [], ub = False\<rparr>"

section \<open>The wire encoder\<close>

text \<open>What \<^verbatim>\<open>%d\<close> and \<^verbatim>\<open>%ld\<close> print: the decimal digits, with a minus sign when negative.\<close>

definition digit_char :: "int \<Rightarrow> char" where
  "digit_char d = ''0123456789'' ! nat d"

function digits :: "int \<Rightarrow> string" where
  "digits n = (if n < 10 then [digit_char n] else digits (n div 10) @ [digit_char (n mod 10)])"
  by pat_completeness auto
termination
  by (relation "measure nat") auto

declare digits.simps [simp del]

definition show_int :: "int \<Rightarrow> string" where
  "show_int i = (if i < 0 then CHR ''-'' # digits (- i) else digits i)"

text \<open>
  The state of the output buffer while \<^verbatim>\<open>entry_to_json\<close> fills it: the C string readable
  at \<^verbatim>\<open>json\<close>, the running \<^verbatim>\<open>len\<close> (the sum of what the \<^verbatim>\<open>snprintf\<close> calls returned), and
  whether a call has been given a destination beyond the end of the buffer.
\<close>

record jbuf =
  jb_text :: string
  jb_len :: nat
  jb_over :: bool

text \<open>
  \<^verbatim>\<open>len += snprintf(json + len, buffer_size - len, ...)\<close> where the formatted text is \<open>s\<close>.
  \<^verbatim>\<open>snprintf\<close> returns the length of \<open>s\<close> whatever it stores. With \<open>len < buffer_size\<close> it
  stores as much of \<open>s\<close> as fits before the terminator; with \<open>len = buffer_size\<close> the size
  is 0 and nothing is stored; with \<open>len > buffer_size\<close> the destination lies outside the
  buffer and the unsigned size wraps around, so the write is out of bounds.
  (Whenever \<open>len < buffer_size\<close>, nothing has been cut so far and the string is \<open>len\<close> long.)
\<close>

definition snprintf_at :: "nat \<Rightarrow> string \<Rightarrow> jbuf \<Rightarrow> jbuf" where
  "snprintf_at buffer_size s b =
     (if jb_len b > buffer_size
      then b\<lparr>jb_len := jb_len b + length s, jb_over := True\<rparr>
      else if jb_len b = buffer_size
      then b\<lparr>jb_len := jb_len b + length s\<rparr>
      else b\<lparr>jb_text := take (jb_len b) (jb_text b) @ take (buffer_size - jb_len b - 1) s,
             jb_len := jb_len b + length s\<rparr>)"

text \<open>The fields of an entry as the encoder reads them through the entry's pointers.\<close>

record entry_view =
  v_id :: string
  v_message :: string
  v_source :: string
  v_type :: int
  v_level :: int
  v_timestamp :: int
  v_labels :: "(string \<times> string) list"

definition load_entry :: "world \<Rightarrow> addr \<Rightarrow> entry_view option" where
  "load_entry w a =
     (case entry_at w a of
        None \<Rightarrow> None
      | Some e \<Rightarrow>
          (case (cstr w (e_id e), cstr w (e_message e), cstr w (e_source e), entry_labels w e) of
             (Some i, Some m, Some s, Some ls) \<Rightarrow>
               Some \<lparr>v_id = i, v_message = m, v_source = s, v_type = e_type e,
                     v_level = e_level e, v_timestamp = e_timestamp e, v_labels = ls\<rparr>
           | _ \<Rightarrow> None))"

text \<open>The expansions of the format strings of \<^verbatim>\<open>entry_to_json\<close>.\<close>

definition header_text :: "entry_view \<Rightarrow> string" where
  \<open>header_text v =
     ''{"id":"'' @ v_id v @ ''","message":"'' @ v_message v @ ''","source":"'' @ v_source v @
     ''","entry_type":'' @ show_int (v_type v) @ '',"level":'' @ show_int (v_level v) @
     '',"timestamp":'' @ show_int (v_timestamp v)\<close>

definition secret_text :: "string \<Rightarrow> string" where
  \<open>secret_text s = '',"shared_secret":"'' @ s @ ''"''\<close>

definition label_text :: "string \<times> string \<Rightarrow> string" where
  \<open>label_text kv = ''"'' @ fst kv @ ''":"'' @ snd kv @ ''"''\<close>

text \<open>The loop over the labels, from index \<open>i\<close> on: a comma before every label but the first.\<close>

fun labels_loop :: "nat \<Rightarrow> (string \<times> string) list \<Rightarrow> nat \<Rightarrow> jbuf \<Rightarrow> jbuf" where
  "labels_loop bs [] i b = b"
| "labels_loop bs (kv # kvs) i b =
     labels_loop bs kvs (Suc i)
       (snprintf_at bs (label_text kv) (if i > 0 then snprintf_at bs '','' b else b))"

text \<open>
  The \<^verbatim>\<open>snprintf\<close> calls of \<^verbatim>\<open>entry_to_json\<close> in their order, on a buffer of \<open>bs\<close> bytes:
  the six fixed fields, the secret when the pointer is not \<^verbatim>\<open>NULL\<close> and the string not empty,
  the labels object when \<^verbatim>\<open>labels.count > 0\<close>, the closing brace. (\<^verbatim>\<open>len\<close> is an \<^verbatim>\<open>int\<close>;
  texts are taken to be shorter than \<open>2^31\<close> characters, so it is a \<open>nat\<close> here.)
\<close>

definition json_fill :: "nat \<Rightarrow> entry_view \<Rightarrow> string option \<Rightarrow> jbuf" where
  \<open>json_fill bs v shared_secret =
     (let b0 = snprintf_at bs (header_text v) \<lparr>jb_text = [], jb_len = 0, jb_over = False\<rparr>;
          b1 = (case shared_secret of
                  None \<Rightarrow> b0
                | Some s \<Rightarrow> if length s > 0 then snprintf_at bs (secret_text s) b0 else b0);
          b2 = (if length (v_labels v) > 0
                then snprintf_at bs ''}''
                       (labels_loop bs (v_labels v) 0 (snprintf_at bs '',"labels":{'' b1))
                else b1)
      in snprintf_at bs ''}'' b2)\<close>

definition buffer_size :: nat where
  "buffer_size = 4096"

text \<open>
  \<^verbatim>\<open>entry_to_json\<close>: \<^verbatim>\<open>NULL\<close> when the buffer cannot be allocated, and otherwise the buffer,
  whatever happened while it was filled.
\<close>

definition entry_to_json :: "addr \<Rightarrow> string option \<Rightarrow> world \<Rightarrow> ptr \<times> world" where
  "entry_to_json entry shared_secret w =
     (case malloc (Chars []) w of
        (None, w1) \<Rightarrow> (None, w1)
      | (Some json, w1) \<Rightarrow>
          (case load_entry w1 entry of
             None \<Rightarrow> (Some json, w1\<lparr>ub := True\<rparr>)
           | Some v \<Rightarrow>
               (let b = json_fill buffer_size v shared_secret
                in (Some json,
                    w1\<lparr>heap := (heap w1)(json \<mapsto> Chars (jb_text b)),
                       ub := (ub w1 \<or> jb_over b)\<rparr>))))"

text \<open>
  The wire text as the description of the format states it, written out independently of
  the buffer: the fields in their order, the secret when one is given and non-empty, the
  labels object when there are labels, the closing brace.
\<close>

fun comma_join :: "string list \<Rightarrow> string" where
  "comma_join [] = []"
| "comma_join [x] = x"
| "comma_join (x # y # ys) = x @ '','' @ comma_join (y # ys)"

definition wire_text :: "entry_view \<Rightarrow> string option \<Rightarrow> string" where
  \<open>wire_text v secret =
     ''{"id":"'' @ v_id v @ ''","message":"'' @ v_message v @ ''","source":"'' @ v_source v @
     ''","entry_type":'' @ show_int (v_type v) @ '',"level":'' @ show_int (v_level v) @
     '',"timestamp":'' @ show_int (v_timestamp v) @
     (case secret of
        None \<Rightarrow> []
      | Some s \<Rightarrow> if s = [] then [] else '',"shared_secret":"'' @ s @ ''"'') @
     (if v_labels v = [] then []
      else '',"labels":{'' @
           comma_join (map (\<lambda>(k, x). ''"'' @ k @ ''":"'' @ x @ ''"'') (v_labels v)) @ ''}'') @
     ''}''\<close>

section \<open>Clients\<close>

text \<open>
  \<^verbatim>\<open>logflux_config_t\<close> and \<^verbatim>\<open>struct logflux_client\<close>. The character arrays hold C strings
  (255, 255 and 127 characters at most); the port is a \<^verbatim>\<open>uint16_t\<close>, the policy values are
  \<^verbatim>\<open>uint32_t\<close>. A client is passed and returned as a value; its \<^verbatim>\<open>calloc\<close> consumes one
  allocation outcome.
\<close>

record logflux_config =
  connection_type :: int
  socket_path :: string
  host :: string
  port :: "16 word"
  shared_secret :: string
  timeout_ms :: "32 word"
  retry_count :: "32 word"
  retry_delay_ms :: "32 word"

record logflux_client =
  config :: logflux_config
  socket_fd :: int
  connected :: bool

definition zero_config :: logflux_config where
  "zero_config =
     \<lparr>connection_type = 0, socket_path = [], host = [], port = 0, shared_secret = [],
      timeout_ms = 0, retry_count = 0, retry_delay_ms = 0\<rparr>"

definition zero_client :: logflux_client where
  "zero_client = \<lparr>config = zero_config, socket_fd = 0, connected = False\<rparr>"

text \<open>
  \<^verbatim>\<open>strncpy(dst, src, n)\<close> into a zeroed array of \<open>n + 1\<close> bytes: the string read back from
  \<open>dst\<close> is the first \<open>n\<close> characters of \<open>src\<close>.
\<close>

definition strncpy :: "string \<Rightarrow> nat \<Rightarrow> string" where
  "strncpy src n = take n src"

text \<open>
  The environment \<^verbatim>\<open>logflux_load_shared_secret\<close> looks at: two variables and the files
  that can be opened for reading, with their contents.
\<close>

record os_env =
  xdg_runtime_dir :: "string option"
  home_dir :: "string option"
  files :: "string \<Rightarrow> string option"

text \<open>
  \<^verbatim>\<open>fgets(buf, size, file)\<close> on a freshly opened file: at most \<open>sz - 1\<close> characters, up to
  and including the first newline. With a size of 1 there is room for the terminator only:
  the C library stores it and returns the buffer without reading. Otherwise the answer is
  \<^verbatim>\<open>NULL\<close> when there is nothing to read (and for a size of 0).
\<close>

definition fgets :: "nat \<Rightarrow> string \<Rightarrow> string option" where
  "fgets sz content =
     (if sz = 0 then None
      else if sz = 1 then Some []
      else if content = [] then None
      else Some (take (sz - 1)
                  (takeWhile (\<lambda>c. c \<noteq> CHR 0x0A) content @
                   take 1 (dropWhile (\<lambda>c. c \<noteq> CHR 0x0A) content))))"

definition secret_path :: "os_env \<Rightarrow> string" where
  "secret_path env =
     take 511
       (case xdg_runtime_dir env of
          Some xdg \<Rightarrow> xdg @ ''/logflux/agent.secret''
        | None \<Rightarrow>
            (case home_dir env of
               Some home \<Rightarrow> home @ ''/.logflux/runtime/agent.secret''
             | None \<Rightarrow> ''/tmp/.logflux-runtime/agent.secret''))"

text \<open>
  \<^verbatim>\<open>logflux_load_shared_secret(secret, size)\<close>: \<open>secret\<close> is what the caller's buffer holds
  (\<open>None\<close> for a \<^verbatim>\<open>NULL\<close> buffer); the result carries what it holds afterwards.
\<close>

definition logflux_load_shared_secret ::
    "os_env \<Rightarrow> string option \<Rightarrow> nat \<Rightarrow> logflux_error \<times> string option" where
  "logflux_load_shared_secret env secret sz =
     (case secret of
        None \<Rightarrow> (LOGFLUX_ERROR_INVALID_PARAM, secret)
      | Some old \<Rightarrow>
          (if sz = 0 then (LOGFLUX_ERROR_INVALID_PARAM, secret)
           else (case files env (secret_path env) of
                   None \<Rightarrow> (LOGFLUX_ERROR_CONNECTION, secret)
                 | Some content \<Rightarrow>
                     (case fgets sz content of
                        None \<Rightarrow> (LOGFLUX_ERROR_FORMAT, secret)
                      | Some line \<Rightarrow>
                          (if length line > 0 \<and> last line = CHR 0x0A
                           then (LOGFLUX_OK, Some (butlast line))
                           else (LOGFLUX_OK, Some line))))))"

definition logflux_client_new_unix :: "string option \<Rightarrow> world \<Rightarrow> logflux_client option \<times> world" where
  "logflux_client_new_unix path w =
     (case path of
        None \<Rightarrow> (None, w)
      | Some p \<Rightarrow>
          (case next_alloc w of
             (Fails, w1) \<Rightarrow> (None, w1)
           | (_, w1) \<Rightarrow>
               (Some (zero_client
                  \<lparr>config := zero_config
                     \<lparr>connection_type := LOGFLUX_CONN_UNIX,
                      socket_path := strncpy p 255,
                      timeout_ms := 10000, retry_count := 3, retry_delay_ms := 1000\<rparr>,
                   socket_fd := - 1\<rparr>), w1)))"

definition logflux_client_new_tcp ::
    "os_env \<Rightarrow> string option \<Rightarrow> 16 word \<Rightarrow> world \<Rightarrow> logflux_client option \<times> world" where
  "logflux_client_new_tcp env h prt w =
     (case h of
        None \<Rightarrow> (None, w)
      | Some hst \<Rightarrow>
          (if prt = 0 then (None, w)
           else (case next_alloc w of
                   (Fails, w1) \<Rightarrow> (None, w1)
                 | (_, w1) \<Rightarrow>
                     (let cfg = zero_config
                            \<lparr>connection_type := LOGFLUX_CONN_TCP,
                             host := strncpy hst 255, port := prt,
                             timeout_ms := 10000, retry_count := 3, retry_delay_ms := 1000\<rparr>;
                          loaded = snd (logflux_load_shared_secret env (Some (shared_secret cfg)) 128)
                      in (Some (zero_client
                            \<lparr>config := cfg\<lparr>shared_secret := (case loaded of Some x \<Rightarrow> x | None \<Rightarrow> [])\<rparr>,
                             socket_fd := - 1\<rparr>), w1)))))"

definition logflux_client_new_config ::
    "logflux_config option \<Rightarrow> world \<Rightarrow> logflux_client option \<times> world" where
  "logflux_client_new_config cfg w =
     (case cfg of
        None \<Rightarrow> (None, w)
      | Some c \<Rightarrow>
          (case next_alloc w of
             (Fails, w1) \<Rightarrow> (None, w1)
           | (_, w1) \<Rightarrow> (Some (zero_client\<lparr>config := c, socket_fd := - 1\<rparr>), w1)))"

section \<open>Transport\<close>

text \<open>
  A system call whose result the code looks at: it is recorded in the trace and its return
  value is the next one of the plan.
\<close>

definition syscall :: "io_event \<Rightarrow> world \<Rightarrow> int \<times> world" where
  "syscall ev w =
     ((case sys w of [] \<Rightarrow> - 1 | r # _ \<Rightarrow> r),
      w\<lparr>sys := tl (sys w), trace := trace w @ [ev]\<rparr>)"

text \<open>\<^verbatim>\<open>close(fd)\<close>; its result is ignored everywhere.\<close>

definition close_fd :: "int \<Rightarrow> world \<Rightarrow> world" where
  "close_fd fd w = w\<lparr>trace := trace w @ [Close fd]\<rparr>"

definition set_socket_timeout :: "int \<Rightarrow> 32 word \<Rightarrow> world \<Rightarrow> logflux_error \<times> world" where
  "set_socket_timeout fd t w =
     (let tv_sec = unat t div 1000;
          tv_usec = (unat t mod 1000) * 1000;
          (r1, w1) = syscall (SetSockOpt fd SO_RCVTIMEO tv_sec tv_usec) w
      in if r1 < 0 then (LOGFLUX_ERROR_TIMEOUT, w1)
         else (let (r2, w2) = syscall (SetSockOpt fd SO_SNDTIMEO tv_sec tv_usec) w1
               in if r2 < 0 then (LOGFLUX_ERROR_TIMEOUT, w2) else (LOGFLUX_OK, w2)))"

text \<open>
  \<^verbatim>\<open>sizeof(addr.sun_path)\<close> comes from the platform's \<^verbatim>\<open><sys/un.h>\<close>; 108 is the value on
  Linux.
\<close>

definition sun_path_size :: nat where
  "sun_path_size = 108"

definition connect_unix_socket ::
    "logflux_client \<Rightarrow> world \<Rightarrow> logflux_error \<times> logflux_client \<times> world" where
  "connect_unix_socket c w =
     (let (fd, w1) = syscall (Socket AF_UNIX) w;
          c1 = c\<lparr>socket_fd := fd\<rparr>
      in if fd < 0 then (LOGFLUX_ERROR_CONNECTION, c1, w1)
         else (let (r, w2) = set_socket_timeout fd (timeout_ms (config c1)) w1
               in if r \<noteq> LOGFLUX_OK
                  then (LOGFLUX_ERROR_TIMEOUT, c1\<lparr>socket_fd := - 1\<rparr>, close_fd fd w2)
                  else if length (socket_path (config c1)) \<ge> sun_path_size
                  then (LOGFLUX_ERROR_INVALID_PARAM, c1\<lparr>socket_fd := - 1\<rparr>, close_fd fd w2)
                  else (let (r3, w3) =
                              syscall (Connect fd (UnixAddr (socket_path (config c1)))) w2
                        in if r3 < 0
                           then (LOGFLUX_ERROR_CONNECTION, c1\<lparr>socket_fd := - 1\<rparr>,
                                 close_fd fd w3)
                           else (LOGFLUX_OK, c1, w3))))"

text \<open>
  \<^verbatim>\<open>inet_pton\<close> is a library call whose answer is taken from the plan like a system call's.
\<close>

definition connect_tcp_socket ::
    "logflux_client \<Rightarrow> world \<Rightarrow> logflux_error \<times> logflux_client \<times> world" where
  "connect_tcp_socket c w =
     (let (fd, w1) = syscall (Socket AF_INET) w;
          c1 = c\<lparr>socket_fd := fd\<rparr>
      in if fd < 0 then (LOGFLUX_ERROR_CONNECTION, c1, w1)
         else (let (r, w2) = set_socket_timeout fd (timeout_ms (config c1)) w1
               in if r \<noteq> LOGFLUX_OK
                  then (LOGFLUX_ERROR_TIMEOUT, c1\<lparr>socket_fd := - 1\<rparr>, close_fd fd w2)
                  else (let (r3, w3) = syscall (InetPton (host (config c1))) w2
                        in if r3 \<le> 0
                           then (LOGFLUX_ERROR_CONNECTION, c1\<lparr>socket_fd := - 1\<rparr>,
                                 close_fd fd w3)
                           else (let (r4, w4) =
                                       syscall (Connect fd (InetAddr (host (config c1))
                                                  (port (config c1)))) w3
                                 in if r4 < 0
                                    then (LOGFLUX_ERROR_CONNECTION, c1\<lparr>socket_fd := - 1\<rparr>,
                                          close_fd fd w4)
                                    else (LOGFLUX_OK, c1, w4)))))"

definition logflux_client_connect ::
    "logflux_client option \<Rightarrow> world \<Rightarrow> logflux_error \<times> logflux_client option \<times> world" where
  "logflux_client_connect client w =
     (case client of
        None \<Rightarrow> (LOGFLUX_ERROR_INVALID_PARAM, None, w)
      | Some c \<Rightarrow>
          (if connected c then (LOGFLUX_OK, Some c, w)
           else (let (result, c1, w1) =
                       (if connection_type (config c) = LOGFLUX_CONN_UNIX
                        then connect_unix_socket c w
                        else connect_tcp_socket c w)
                 in if result = LOGFLUX_OK
                    then (result, Some (c1\<lparr>connected := True\<rparr>), w1)
                    else (result, Some c1, w1))))"

text \<open>
  \<^verbatim>\<open>send_json_data\<close>: the payload and a newline are copied into a new block and handed to
  one \<^verbatim>\<open>send\<close>; anything but the full length coming back is a connection error.
\<close>

definition send_json_data :: "logflux_client \<Rightarrow> string \<Rightarrow> world \<Rightarrow> logflux_error \<times> world" where
  "send_json_data c json w =
     (let json_len = length json;
          total_len = json_len + 1
      in case malloc (Chars (json @ [CHR 0x0A])) w of
           (None, w1) \<Rightarrow> (LOGFLUX_ERROR_MEMORY, w1)
         | (Some data, w1) \<Rightarrow>
             (let (sent, w2) = syscall (Send (socket_fd c) (json @ [CHR 0x0A])) w1;
                  w3 = free (Some data) w2
              in if sent < 0 \<or> sent \<noteq> int total_len
                 then (LOGFLUX_ERROR_CONNECTION, w3)
                 else (LOGFLUX_OK, w3)))"

section \<open>Client facade\<close>

definition logflux_client_send_entry ::
    "logflux_client option \<Rightarrow> ptr \<Rightarrow> world \<Rightarrow> logflux_error \<times> world" where
  "logflux_client_send_entry client entry w =
     (case (client, entry) of
        (Some c, Some a) \<Rightarrow>
          (if \<not> connected c then (LOGFLUX_ERROR_NOT_CONNECTED, w)
           else (let secret = (if connection_type (config c) = LOGFLUX_CONN_TCP
                               then Some (shared_secret (config c)) else None)
                 in case entry_to_json a secret w of
                      (None, w1) \<Rightarrow> (LOGFLUX_ERROR_MEMORY, w1)
                    | (Some json, w1) \<Rightarrow>
                        (case cstr w1 (Some json) of
                           None \<Rightarrow> (LOGFLUX_ERROR_MEMORY, w1\<lparr>ub := True\<rparr>)
                         | Some text \<Rightarrow>
                             (let (result, w2) = send_json_data c text w1
                              in (result, free (Some json) w2)))))
      | _ \<Rightarrow> (LOGFLUX_ERROR_INVALID_PARAM, w))"

text \<open>
  The loop of \<^verbatim>\<open>logflux_client_send_batch\<close> from index \<open>i\<close>. The array is given by the
  addresses of its elements, \<^verbatim>\<open>&entries[i]\<close>; reading past its end is undefined.
\<close>

function send_batch_loop ::
    "logflux_client \<Rightarrow> addr list \<Rightarrow> nat \<Rightarrow> nat \<Rightarrow> world \<Rightarrow> logflux_error \<times> world" where
  "send_batch_loop c entries n i w =
     (if i < n
      then (if i < length entries
            then (let (result, w1) = logflux_client_send_entry (Some c) (Some (entries ! i)) w
                  in if result \<noteq> LOGFLUX_OK then (result, w1)
                     else send_batch_loop c entries n (Suc i) w1)
            else (LOGFLUX_OK, w\<lparr>ub := True\<rparr>))
      else (LOGFLUX_OK, w))"
  by pat_completeness auto
termination
  by (relation "measure (\<lambda>(c, entries, n, i, w). n - i)") auto

declare send_batch_loop.simps [simp del]

definition logflux_client_send_batch ::
    "logflux_client option \<Rightarrow> addr list option \<Rightarrow> nat \<Rightarrow> world \<Rightarrow> logflux_error \<times> world" where
  "logflux_client_send_batch client entries n w =
     (case (client, entries) of
        (Some c, Some es) \<Rightarrow>
          (if n = 0 then (LOGFLUX_ERROR_INVALID_PARAM, w)
           else if \<not> connected c then (LOGFLUX_ERROR_NOT_CONNECTED, w)
           else send_batch_loop c es n 0 w)
      | _ \<Rightarrow> (LOGFLUX_ERROR_INVALID_PARAM, w))"

text \<open>
  Sending the entries of a list one after the other until one fails, as the description of
  \<^verbatim>\<open>send_batch\<close> has it; the world that comes back is the one the last attempted
  \<^verbatim>\<open>send_entry\<close> left.
\<close>

fun send_each :: "logflux_client \<Rightarrow> addr list \<Rightarrow> world \<Rightarrow> logflux_error \<times> world" where
  "send_each c [] w = (LOGFLUX_OK, w)"
| "send_each c (e # es) w =
     (case logflux_client_send_entry (Some c) (Some e) w of
        (result, w1) \<Rightarrow> if result = LOGFLUX_OK then send_each c es w1 else (result, w1))"

section \<open>Sample data\<close>

text \<open>An entry as \<^verbatim>\<open>logflux_entry_new\<close> builds it in the empty world, at address 0.\<close>

definition sample_uuid :: string where
  "sample_uuid = ''123e4567-e89b-12d3-a456-426614174000''"

definition sample_entry :: logflux_entry where
  "sample_entry =
     \<lparr>e_id = Some 1, e_message = Some 2, e_source = Some 3, e_level = 6, e_type = 1,
      e_timestamp = 1700000000, labels_keys = None, labels_values = None,
      labels_count = 0, labels_capacity = 0\<rparr>"

definition sample_world :: world where
  "sample_world =
     snd (logflux_entry_new sample_uuid 1700000000 (Some ''hello'') empty_world)"

section \<open>Auxiliary definitions for the proofs\<close>

text \<open>
  The strings the \<^verbatim>\<open>snprintf\<close> calls of \<^verbatim>\<open>entry_to_json\<close> format before the closing brace,
  in the order of the calls, and the relation between a buffer state and the text formatted
  so far.
\<close>

fun label_pieces :: "nat \<Rightarrow> (string \<times> string) list \<Rightarrow> string list" where
  "label_pieces i [] = []"
| "label_pieces i (kv # kvs) =
     (if i > 0 then ['',''] else []) @ [label_text kv] @ label_pieces (Suc i) kvs"

definition pieces :: "entry_view \<Rightarrow> string option \<Rightarrow> string list" where
  \<open>pieces v secret =
     [header_text v] @
     (case secret of None \<Rightarrow> [] | Some s \<Rightarrow> if length s > 0 then [secret_text s] else []) @
     (if length (v_labels v) > 0 then ['',"labels":{''] @ label_pieces 0 (v_labels v) @ [''}''] else [])\<close>

definition jb_init :: jbuf where "jb_init = \<lparr>jb_text = [], jb_len = 0, jb_over = False\<rparr>"

definition tracks :: "nat \<Rightarrow> jbuf \<Rightarrow> string \<Rightarrow> bool" where
  "tracks bs b t \<longleftrightarrow>
     jb_len b = length t \<and> (jb_over b \<longrightarrow> bs < length t) \<and>
     (\<not> jb_over b \<longrightarrow> jb_text b = take (bs - 1) t)"

text \<open>Entries with a message of \<open>n\<close> letters, built by \<^verbatim>\<open>logflux_entry_new\<close> at address 0.\<close>

definition long_message :: "nat \<Rightarrow> string" where
  "long_message n = replicate n CHR ''a''"

definition long_world :: "nat \<Rightarrow> world" where
  "long_world n = snd (logflux_entry_new sample_uuid 1700000000 (Some (long_message n)) empty_world)"

definition long_view :: "nat \<Rightarrow> entry_view" where
  "long_view n = \<lparr>v_id = sample_uuid, v_message = long_message n, v_source = ''c-sdk'', v_type = 1,
     v_level = 6, v_timestamp = 1700000000, v_labels = []\<rparr>"

text \<open>
  Further sample data: entries with labels, a connected TCP client with a secret, a TCP
  configuration with neither secret nor timeout, an environment without files, and a world
  holding two entries (at addresses 0 and 4) with a given plan of system call results.
\<close>

definition add_labels :: "addr \<Rightarrow> (string \<times> string) list \<Rightarrow> world \<Rightarrow> world" where
  "add_labels a kvs w =
     fold (\<lambda>(k, v) w. snd (logflux_entry_add_label (Some a) (Some k) (Some v) w)) kvs w"

definition two_labels_world :: world where
  "two_labels_world = add_labels 0 [(''a'', ''1''), (''a'', ''2'')] sample_world"

definition two_labels_view :: entry_view where
  "two_labels_view =
     \<lparr>v_id = sample_uuid, v_message = ''hello'', v_source = ''c-sdk'', v_type = 1, v_level = 6,
      v_timestamp = 1700000000, v_labels = [(''a'', ''1''), (''a'', ''2'')]\<rparr>"

definition four_labels_world :: world where
  "four_labels_world =
     add_labels 0 [(''k1'', ''v1''), (''k2'', ''v2''), (''k3'', ''v3''), (''k4'', ''v4'')]
       sample_world"

definition sample_client :: logflux_client where
  "sample_client =
     \<lparr>config = zero_config\<lparr>connection_type := LOGFLUX_CONN_TCP, host := ''127.0.0.1'',
         port := 8080, shared_secret := ''s3cret''\<rparr>,
      socket_fd = 3, connected = True\<rparr>"

definition bare_tcp_config :: logflux_config where
  "bare_tcp_config =
     zero_config\<lparr>connection_type := LOGFLUX_CONN_TCP, host := ''127.0.0.1'', port := 8080\<rparr>"

definition no_files :: os_env where
  "no_files = \<lparr>xdg_runtime_dir = None, home_dir = None, files = (\<lambda>_. None)\<rparr>"

definition second_uuid :: string where
  "second_uuid = ''00000000-0000-4000-8000-000000000001''"

definition batch_world :: "int list \<Rightarrow> world" where
  "batch_world plan =
     (snd (logflux_entry_new second_uuid 1700000001 (Some ''bye'') sample_world))\<lparr>sys := plan\<rparr>"

definition hello_view :: entry_view where
  "hello_view =
     \<lparr>v_id = sample_uuid, v_message = ''hello'', v_source = ''c-sdk'', v_type = 1, v_level = 6,
      v_timestamp = 1700000000, v_labels = []\<rparr>"

definition bye_view :: entry_view where
  "bye_view =
     \<lparr>v_id = second_uuid, v_message = ''bye'', v_source = ''c-sdk'', v_type = 1, v_level = 6,
      v_timestamp = 1700000001, v_labels = []\<rparr>"

section \<open>JSON texts\<close>

text \<open>
  The specification calls the payload a JSON object. The values at hand are strings, integers
  and objects; an object is the list of its members in the order of the text, duplicate names
  kept.
\<close>

datatype jvalue = JString string | JNumber int | JObject "(string \<times> jvalue) list"

text \<open>
  A character is \<open>plain\<close> when the JSON grammar (RFC 8259) allows it inside a string as it is:
  every character but the quotation mark, the backslash and the control characters below
  0x20. All other characters need an escape sequence, which \<^verbatim>\<open>entry_to_json\<close> never writes.
\<close>

definition plain :: "char \<Rightarrow> bool" where
  "plain c = (32 \<le> (of_char c :: nat) \<and> c \<noteq> CHR 0x22 \<and> c \<noteq> CHR 0x5C)"

text \<open>The value of a sequence of decimal digits.\<close>

definition is_digit :: "char \<Rightarrow> bool" where
  "is_digit c = (c \<in> set ''0123456789'')"

definition digit_val :: "char \<Rightarrow> int" where
  "digit_val c = int (of_char c) - 48"

definition dec :: "string \<Rightarrow> int" where
  "dec ds = foldl (\<lambda>a c. 10 * a + digit_val c) 0 ds"

text \<open>
  The grammar as a recogniser that reads a text character by character: no white space,
  strings of plain characters, integers without leading zeros, nested objects. Its state is
  what it expects next, the members read so far of the object it is in, and for each
  enclosing object the members read so far and the name under which the current object is
  nested. \<open>parse_object\<close> answers the object a text denotes, and \<open>None\<close> for a text outside
  this grammar.
\<close>

datatype pmode =
    PStart | PFirstKey | PKey | PInKey string | PColon string | PValue string
  | PInString string string | PMinus string | PInNumber string bool string
  | PAfter | PDone jvalue

type_synonym pstate = "pmode \<times> (string \<times> jvalue) list \<times> ((string \<times> jvalue) list \<times> string) list"

fun close_object :: "(string \<times> jvalue) list \<Rightarrow> ((string \<times> jvalue) list \<times> string) list \<Rightarrow> pstate" where
  "close_object ms [] = (PDone (JObject ms), [], [])"
| "close_object ms ((pms, k) # st) = (PAfter, pms @ [(k, JObject ms)], st)"

definition step_after :: "(string \<times> jvalue) list \<Rightarrow> ((string \<times> jvalue) list \<times> string) list \<Rightarrow> char \<Rightarrow> pstate option" where
  "step_after ms st c =
     (if c = CHR '','' then Some (PKey, ms, st)
      else if c = CHR ''}'' then Some (close_object ms st)
      else None)"

fun step :: "pstate \<Rightarrow> char \<Rightarrow> pstate option" where
  "step (PStart, ms, st) c = (if c = CHR ''{'' then Some (PFirstKey, [], []) else None)"
| "step (PFirstKey, ms, st) c =
     (if c = CHR 0x22 then Some (PInKey [], ms, st)
      else if c = CHR ''}'' then Some (close_object ms st)
      else None)"
| "step (PKey, ms, st) c = (if c = CHR 0x22 then Some (PInKey [], ms, st) else None)"
| "step (PInKey k, ms, st) c =
     (if c = CHR 0x22 then Some (PColon k, ms, st)
      else if plain c then Some (PInKey (k @ [c]), ms, st)
      else None)"
| "step (PColon k, ms, st) c = (if c = CHR '':'' then Some (PValue k, ms, st) else None)"
| "step (PValue k, ms, st) c =
     (if c = CHR 0x22 then Some (PInString k [], ms, st)
      else if c = CHR ''{'' then Some (PFirstKey, [], (ms, k) # st)
      else if c = CHR ''-'' then Some (PMinus k, ms, st)
      else if is_digit c then Some (PInNumber k False [c], ms, st)
      else None)"
| "step (PInString k s, ms, st) c =
     (if c = CHR 0x22 then Some (PAfter, ms @ [(k, JString s)], st)
      else if plain c then Some (PInString k (s @ [c]), ms, st)
      else None)"
| "step (PMinus k, ms, st) c = (if is_digit c then Some (PInNumber k True [c], ms, st) else None)"
| "step (PInNumber k neg ds, ms, st) c =
     (if is_digit c
      then (if ds = ''0'' then None else Some (PInNumber k neg (ds @ [c]), ms, st))
      else step_after (ms @ [(k, JNumber (if neg then - dec ds else dec ds))]) st c)"
| "step (PAfter, ms, st) c = step_after ms st c"
| "step (PDone v, ms, st) c = None"

fun run :: "pstate \<Rightarrow> string \<Rightarrow> pstate option" where
  "run s [] = Some s"
| "run s (c # cs) = (case step s c of None \<Rightarrow> None | Some s' \<Rightarrow> run s' cs)"

definition parse_object :: "string \<Rightarrow> jvalue option" where
  "parse_object t =
     (case run (PStart, [], []) t of Some (PDone v, _, _) \<Rightarrow> Some v | _ \<Rightarrow> None)"

text \<open>
  An entry none of whose strings needs escaping, the members the specification gives the
  object of an entry (the six fixed ones, then \<^verbatim>\<open>shared_secret\<close> for a non-empty secret, then
  \<^verbatim>\<open>labels\<close> for an entry with labels), and the member names of an object.
\<close>

definition plain_view :: "entry_view \<Rightarrow> bool" where
  "plain_view v =
     (list_all plain (v_id v) \<and> list_all plain (v_message v) \<and> list_all plain (v_source v) \<and>
      list_all (\<lambda>(k, x). list_all plain k \<and> list_all plain x) (v_labels v))"

definition entry_members :: "entry_view \<Rightarrow> string option \<Rightarrow> (string \<times> jvalue) list" where
  "entry_members v secret =
     [(''id'', JString (v_id v)), (''message'', JString (v_message v)),
      (''source'', JString (v_source v)), (''entry_type'', JNumber (v_type v)),
      (''level'', JNumber (v_level v)), (''timestamp'', JNumber (v_timestamp v))] @
     (case secret of
        None \<Rightarrow> []
      | Some s \<Rightarrow> if s = [] then [] else [(''shared_secret'', JString s)]) @
     (if v_labels v = [] then []
      else [(''labels'', JObject (map (\<lambda>(k, x). (k, JString x)) (v_labels v)))])"

fun member_keys :: "jvalue \<Rightarrow> string list" where
  "member_keys (JObject ms) = map fst ms"
| "member_keys _ = []"

text \<open>
  An entry whose message contains quotation marks, built by \<^verbatim>\<open>logflux_entry_new\<close> at address
  0, the text the encoder gives for it, and a connected Unix-socket client.
\<close>

definition forged_message :: string where
  \<open>forged_message = ''hi","shared_secret":"forged''\<close>

definition forged_world :: world where
  "forged_world =
     snd (logflux_entry_new sample_uuid 1700000000 (Some forged_message) empty_world)"

definition forged_view :: entry_view where
  "forged_view =
     \<lparr>v_id = sample_uuid, v_message = forged_message, v_source = ''c-sdk'', v_type = 1,
      v_level = 6, v_timestamp = 1700000000, v_labels = []\<rparr>"

definition forged_payload :: string where
  \<open>forged_payload =
     ''{"id":"123e4567-e89b-12d3-a456-426614174000","message":"hi","shared_secret":"forged","source":"c-sdk","entry_type":1,"level":6,"timestamp":1700000000}''\<close>


section \<open>Properties\<close>

subsection \<open>Allocation\<close>

lemma malloc_eq:
  "malloc b w =
     (if (case allocs w of [] \<Rightarrow> False | a # _ \<Rightarrow> a = Fails)
      then (None, w\<lparr>allocs := tl (allocs w)\<rparr>)
      else new_block b (w\<lparr>allocs := tl (allocs w)\<rparr>))"
  by (auto simp: malloc_def next_alloc_def split: list.splits alloc_outcome.splits)

lemma fails_take4:
  "Fails \<in> set (take 4 xs) \<longleftrightarrow>
     (case xs of [] \<Rightarrow> False | a # as \<Rightarrow> a = Fails \<or>
       (case as of [] \<Rightarrow> False | b # bs \<Rightarrow> b = Fails \<or>
         (case bs of [] \<Rightarrow> False | c # cs \<Rightarrow> c = Fails \<or>
           (case cs of [] \<Rightarrow> False | d # ds \<Rightarrow> d = Fails))))"
  by (auto split: list.splits simp: numeral_eq_Suc)

lemma fails_take2:
  "Fails \<notin> set (take 2 xs) \<longleftrightarrow>
     (case xs of [] \<Rightarrow> True | a # as \<Rightarrow> a \<noteq> Fails \<and> (case as of [] \<Rightarrow> True | b # _ \<Rightarrow> b \<noteq> Fails))"
  by (auto split: list.splits simp: numeral_eq_Suc)

lemma heap_ok_empty_world: "heap_ok empty_world"
  by (simp add: heap_ok_def empty_world_def)

subsection \<open>The sample data, evaluated\<close>

lemmas run_defs = logflux_entry_new_def malloc_eq new_block_def
  generate_uuid_def strdup_def put_entry_def entry_at_def zero_entry_def empty_world_def
  LOGFLUX_LEVEL_INFO_def LOGFLUX_TYPE_LOG_def logflux_entry_add_label_def expand_labels_def
  store_label_def realloc_def next_alloc_def set_slot_def free_def add_labels_def
  sample_world_def Let_def eval_nat_numeral

lemmas read_defs = labels_of_def load_entry_def entry_labels_def label_at_def slot_def cstr_def upt_rec

lemma sample_world_entry:
  "entry_at sample_world 0 = Some sample_entry"
  by (simp add: sample_world_def sample_entry_def logflux_entry_new_def malloc_eq new_block_def
      generate_uuid_def strdup_def put_entry_def entry_at_def zero_entry_def empty_world_def
      LOGFLUX_LEVEL_INFO_def LOGFLUX_TYPE_LOG_def)

lemma show_int_1: "show_int 1 = ''1''"
  by (simp add: show_int_def digits.simps [of 1] digit_char_def)

lemma show_int_6: "show_int 6 = ''6''"
  by (simp add: show_int_def digits.simps [of "numeral k" for k] digit_char_def)

lemma show_int_ts: "show_int 1700000000 = ''1700000000''"
  by (simp add: show_int_def digits.simps [of "numeral k" for k] digits.simps [of 1] digit_char_def)

lemma show_int_ts1: "show_int 1700000001 = ''1700000001''"
  by (simp add: show_int_def digits.simps [of "numeral k" for k] digits.simps [of 1] digit_char_def)

lemma two_labels_load: "load_entry two_labels_world 0 = Some two_labels_view"
  by (simp add: two_labels_world_def two_labels_view_def run_defs read_defs)

lemma two_labels_heap_ok: "heap_ok two_labels_world"
  by (simp add: two_labels_world_def run_defs heap_ok_def)

lemma two_labels_state:
  "allocs two_labels_world = []" "next_addr two_labels_world = 10" "\<not> ub two_labels_world"
  "trace two_labels_world = []"
  by (simp_all add: two_labels_world_def run_defs)


lemma two_labels_text_unix:
  \<open>wire_text two_labels_view None =
     ''{"id":"123e4567-e89b-12d3-a456-426614174000","message":"hello","source":"c-sdk","entry_type":1,"level":6,"timestamp":1700000000,"labels":{"a":"1","a":"2"}}''\<close>
  by (simp add: wire_text_def two_labels_view_def show_int_1 show_int_6 show_int_ts sample_uuid_def)

lemma long_world_load: "load_entry (long_world n) 0 = Some (long_view n)"
  by (simp add: long_world_def long_view_def logflux_entry_new_def malloc_eq new_block_def
      generate_uuid_def strdup_def put_entry_def entry_at_def zero_entry_def empty_world_def
      LOGFLUX_LEVEL_INFO_def LOGFLUX_TYPE_LOG_def load_entry_def cstr_def entry_labels_def)

lemma long_world_heap_ok: "heap_ok (long_world n)"
  by (simp add: long_world_def logflux_entry_new_def malloc_eq new_block_def
      generate_uuid_def strdup_def put_entry_def zero_entry_def empty_world_def heap_ok_def)

lemma long_world_allocs: "allocs (long_world n) = []" "next_addr (long_world n) = 4" "\<not> ub (long_world n)"
  by (simp_all add: long_world_def logflux_entry_new_def malloc_eq new_block_def
      generate_uuid_def strdup_def put_entry_def zero_entry_def empty_world_def heap_ok_def)

lemma long_world_alloc_ok: "fst (next_alloc (long_world n)) \<noteq> Fails"
  by (simp add: next_alloc_def long_world_allocs)

lemma long_text_length: "length (wire_text (long_view n) None) = n + 123"
  by (simp add: wire_text_def long_view_def show_int_1 show_int_6 show_int_ts sample_uuid_def long_message_def)

lemma batch_world_load:
  "load_entry (batch_world plan) 0 = Some hello_view" "load_entry (batch_world plan) 4 = Some bye_view"
  by (simp_all add: batch_world_def hello_view_def bye_view_def run_defs read_defs)

lemma batch_world_state:
  "allocs (batch_world plan) = []" "next_addr (batch_world plan) = 8" "\<not> ub (batch_world plan)"
  "trace (batch_world plan) = []" "sys (batch_world plan) = plan"
  by (simp_all add: batch_world_def run_defs)

lemma batch_world_heap_ok: "heap_ok (batch_world plan)"
  by (simp add: batch_world_def run_defs heap_ok_def)

lemma batch_text_lengths:
  "length (wire_text hello_view (Some ''s3cret'')) = 153"
  "length (wire_text bye_view (Some ''s3cret'')) = 151"
  by (simp_all add: wire_text_def hello_view_def bye_view_def show_int_1 show_int_6 show_int_ts
      show_int_ts1 sample_uuid_def second_uuid_def)

lemma sample_client_facts:
  "connected sample_client" "socket_fd sample_client = 3"
  "(if connection_type (config sample_client) = LOGFLUX_CONN_TCP
    then Some (shared_secret (config sample_client)) else None) = Some ''s3cret''"
  by (simp_all add: sample_client_def zero_config_def)

subsection \<open>Entry construction\<close>

text \<open>
  C7. For a message that is present, in a world whose allocator hands out unused addresses:
  when none of the four allocation requests of the call fails (the structure, the identifier,
  the message copy, the source copy), \<^verbatim>\<open>logflux_entry_new\<close> returns an entry whose id is
  non-null and holds the generated identifier, whose message is the given one, whose source
  is \<^verbatim>\<open>"c-sdk"\<close>, whose level is Info and whose type is Log (timestamp the current time, no
  labels). When one of them fails, it returns \<^verbatim>\<open>NULL\<close> and the heap is what it was before
  the call: everything allocated on the way has been released.
\<close>

theorem entry_new_all_or_nothing:
  assumes "heap_ok w"
  shows "case logflux_entry_new uuid now (Some msg) w of (r, w') \<Rightarrow>
     if Fails \<in> set (take 4 (allocs w))
     then r = None \<and> heap w' = heap w \<and> ub w' = ub w
     else (\<exists>a e. r = Some a \<and> entry_at w' a = Some e \<and> e_id e \<noteq> None \<and>
             cstr w' (e_id e) = Some uuid \<and> cstr w' (e_message e) = Some msg \<and>
             cstr w' (e_source e) = Some ''c-sdk'' \<and> e_level e = LOGFLUX_LEVEL_INFO \<and>
             e_type e = LOGFLUX_TYPE_LOG \<and> e_timestamp e = now \<and> labels_count e = 0 \<and>
             ub w' = ub w)"
proof -
  have fresh: "\<And>a. next_addr w \<le> a \<Longrightarrow> heap w a = None"
    using assms by (simp add: heap_ok_def)
  show ?thesis
    unfolding fails_take4
    by (auto simp: logflux_entry_new_def malloc_eq new_block_def
        generate_uuid_def strdup_def put_entry_def entry_at_def cstr_def zero_entry_def
        logflux_entry_free_def free_def fresh fun_eq_iff
        split: list.splits)
qed

theorem entry_new_all_or_nothing_witness:
  "heap_ok empty_world \<and>
   (\<exists>a e w'. logflux_entry_new sample_uuid 1700000000 (Some ''hello'') empty_world = (Some a, w') \<and>
        entry_at w' a = Some e \<and> e_id e \<noteq> None \<and>
        cstr w' (e_id e) = Some sample_uuid \<and> cstr w' (e_message e) = Some ''hello'' \<and>
        cstr w' (e_source e) = Some ''c-sdk'' \<and> e_level e = 6 \<and> e_type e = 1) \<and>
   heap_ok (empty_world\<lparr>allocs := [Fresh, Fresh, Fails]\<rparr>) \<and>
   (\<exists>w'. logflux_entry_new sample_uuid 1700000000 (Some ''hello'')
           (empty_world\<lparr>allocs := [Fresh, Fresh, Fails]\<rparr>) = (None, w') \<and>
         heap w' = heap empty_world)"
proof -
  have ok1: "heap_ok empty_world"
    by (simp add: heap_ok_def empty_world_def)
  have ok2: "heap_ok (empty_world\<lparr>allocs := [Fresh, Fresh, Fails]\<rparr>)"
    by (simp add: heap_ok_def empty_world_def)
  have nofail: "Fails \<notin> set (take 4 (allocs empty_world))"
    by (simp add: empty_world_def)
  have fail: "Fails \<in> set (take 4 (allocs (empty_world\<lparr>allocs := [Fresh, Fresh, Fails]\<rparr>)))"
    by simp
  show ?thesis
    using entry_new_all_or_nothing [OF ok1, where uuid = sample_uuid and now = 1700000000
        and msg = "''hello''"]
      entry_new_all_or_nothing [OF ok2, where uuid = sample_uuid and now = 1700000000
        and msg = "''hello''"]
    by (auto simp: ok1 ok2 nofail fail LOGFLUX_LEVEL_INFO_def LOGFLUX_TYPE_LOG_def
        simp del: take_Cons_numeral split: prod.splits)
qed

subsection \<open>Setters\<close>

text \<open>
  C8. \<^verbatim>\<open>logflux_entry_set_level\<close> returns InvalidParam, changing nothing, when the entry is
  absent or the level lies outside 0..7; for a level in 0..7 on an entry that exists it
  returns success and the entry is the old one with its level set to the given value.
\<close>

theorem set_level_total_on_valid:
  "(entry = None \<or> lvl < 0 \<or> 7 < lvl \<longrightarrow>
      logflux_entry_set_level entry lvl w = (LOGFLUX_ERROR_INVALID_PARAM, w)) \<and>
   (0 \<le> lvl \<and> lvl \<le> 7 \<and> entry_at w a = Some e \<longrightarrow>
      fst (logflux_entry_set_level (Some a) lvl w) = LOGFLUX_OK \<and>
      entry_at (snd (logflux_entry_set_level (Some a) lvl w)) a = Some (e\<lparr>e_level := lvl\<rparr>) \<and>
      ub (snd (logflux_entry_set_level (Some a) lvl w)) = ub w)"
  by (auto simp: logflux_entry_set_level_def LOGFLUX_LEVEL_EMERGENCY_def
      LOGFLUX_LEVEL_DEBUG_def entry_at_def put_entry_def split: option.splits)

theorem set_level_total_on_valid_witness:
  "logflux_entry_set_level None 3 sample_world = (LOGFLUX_ERROR_INVALID_PARAM, sample_world) \<and>
   logflux_entry_set_level (Some 0) 8 sample_world = (LOGFLUX_ERROR_INVALID_PARAM, sample_world) \<and>
   fst (logflux_entry_set_level (Some 0) 3 sample_world) = LOGFLUX_OK \<and>
   map_option e_level (entry_at (snd (logflux_entry_set_level (Some 0) 3 sample_world)) 0) = Some 3"
  using set_level_total_on_valid [of None 3 sample_world 0 sample_entry]
    set_level_total_on_valid [of "Some 0" 8 sample_world 0 sample_entry]
    set_level_total_on_valid [of "Some 0" 3 sample_world 0 sample_entry]
  by (simp add: sample_world_entry)

subsection \<open>Labels\<close>

lemma add_label_absent_argument:
  "entry = None \<or> key = None \<or> val = None \<Longrightarrow>
     logflux_entry_add_label entry key val w = (LOGFLUX_ERROR_INVALID_PARAM, w)"
  by (auto simp: logflux_entry_add_label_def split: option.splits)

text \<open>
  C3. \<^verbatim>\<open>logflux_entry_add_label\<close> on an entry whose four label slots are all in use, so
  that the call has to grow both arrays. The entry holds the labels k1..k4 before the call.
  When the first \<^verbatim>\<open>realloc\<close> succeeds and the second fails (or the other way round), the
  call returns Memory, but it has freed the array it had just obtained, which is the only
  copy of the old one: the entry's \<^verbatim>\<open>labels.keys\<close> still holds address 4, no block lives
  there any more, and the label sequence cannot be read back. The call itself does nothing
  undefined; the damage is the dangling pointer it leaves, which the next
  \<^verbatim>\<open>entry_to_json\<close> or \<^verbatim>\<open>logflux_entry_free\<close> on the entry reads through. When both
  requests fail, or when a later string copy fails, the labels are what they were.
\<close>

theorem add_label_partial_realloc_failure:
  "labels_of four_labels_world 0 =
     Some [(''k1'', ''v1''), (''k2'', ''v2''), (''k3'', ''v3''), (''k4'', ''v4'')] \<and>
   fst (logflux_entry_add_label (Some 0) (Some ''k5'') (Some ''v5'')
          (four_labels_world\<lparr>allocs := [Fresh, Fails]\<rparr>)) = LOGFLUX_ERROR_MEMORY \<and>
   labels_of (snd (logflux_entry_add_label (Some 0) (Some ''k5'') (Some ''v5'')
          (four_labels_world\<lparr>allocs := [Fresh, Fails]\<rparr>))) 0 = None \<and>
   map_option labels_keys (entry_at (snd (logflux_entry_add_label (Some 0) (Some ''k5'')
          (Some ''v5'') (four_labels_world\<lparr>allocs := [Fresh, Fails]\<rparr>))) 0) = Some (Some 4) \<and>
   heap (snd (logflux_entry_add_label (Some 0) (Some ''k5'') (Some ''v5'')
          (four_labels_world\<lparr>allocs := [Fresh, Fails]\<rparr>))) 4 = None \<and>
   \<not> ub (snd (logflux_entry_add_label (Some 0) (Some ''k5'') (Some ''v5'')
          (four_labels_world\<lparr>allocs := [Fresh, Fails]\<rparr>))) \<and>
   ub (snd (entry_to_json 0 None (snd (logflux_entry_add_label (Some 0) (Some ''k5'')
          (Some ''v5'') (four_labels_world\<lparr>allocs := [Fresh, Fails]\<rparr>))))) \<and>
   ub (logflux_entry_free (Some 0) (snd (logflux_entry_add_label (Some 0) (Some ''k5'')
          (Some ''v5'') (four_labels_world\<lparr>allocs := [Fresh, Fails]\<rparr>)))) \<and>
   labels_of (snd (logflux_entry_add_label (Some 0) (Some ''k5'') (Some ''v5'')
          (four_labels_world\<lparr>allocs := [InPlace, Fails]\<rparr>))) 0 = None \<and>
   labels_of (snd (logflux_entry_add_label (Some 0) (Some ''k5'') (Some ''v5'')
          (four_labels_world\<lparr>allocs := [Fails, Fresh]\<rparr>))) 0 = None \<and>
   labels_of (snd (logflux_entry_add_label (Some 0) (Some ''k5'') (Some ''v5'')
          (four_labels_world\<lparr>allocs := [Fails, Fails]\<rparr>))) 0 = labels_of four_labels_world 0 \<and>
   labels_of (snd (logflux_entry_add_label (Some 0) (Some ''k5'') (Some ''v5'')
          (four_labels_world\<lparr>allocs := [Fresh, Fresh, Fresh, Fails]\<rparr>))) 0 =
     labels_of four_labels_world 0"
  by (simp add: four_labels_world_def run_defs read_defs entry_to_json_def
      logflux_entry_free_def)

subsection \<open>The encoder\<close>

text \<open>
  The buffer after a run of \<^verbatim>\<open>snprintf\<close> calls: its text is the first
  \<open>buffer_size - 1\<close> characters of what was formatted as long as no call started beyond
  the end, and a call starts beyond the end exactly when more than \<open>buffer_size\<close>
  characters were formatted before it.
\<close>

lemma labels_loop_fold: "labels_loop bs kvs i b = fold (snprintf_at bs) (label_pieces i kvs) b"
  by (induction kvs arbitrary: i b) auto

lemma json_fill_fold:
  "json_fill bs v secret = snprintf_at bs ''}'' (fold (snprintf_at bs) (pieces v secret) jb_init)"
  by (auto simp: json_fill_def pieces_def labels_loop_fold jb_init_def Let_def split: option.splits)

lemma comma_join_Cons:
  "comma_join (x # xs) = x @ (if xs = [] then [] else '','' @ comma_join xs)"
  by (cases xs) auto

lemma concat_label_pieces_Suc:
  \<open>concat (label_pieces (Suc i) kvs) =
     (if kvs = [] then [] else '','' @ comma_join (map (\<lambda>(k, x). ''"'' @ k @ ''":"'' @ x @ ''"'') kvs))\<close>
  by (induction kvs arbitrary: i) (auto simp: comma_join_Cons label_text_def split: prod.splits)

lemma concat_label_pieces_0:
  \<open>concat (label_pieces 0 kvs) = comma_join (map (\<lambda>(k, x). ''"'' @ k @ ''":"'' @ x @ ''"'') kvs)\<close>
  by (cases kvs) (auto simp: comma_join_Cons concat_label_pieces_Suc label_text_def split: prod.splits)

lemma concat_pieces: "concat (pieces v secret) @ ''}'' = wire_text v secret"
  by (auto simp: pieces_def wire_text_def header_text_def secret_text_def concat_label_pieces_0
      split: option.splits)

lemma tracks_init: "tracks bs jb_init []"
  by (simp add: tracks_def jb_init_def)

lemma tracks_step: "tracks bs b t \<Longrightarrow> tracks bs (snprintf_at bs s b) (t @ s)"
  by (auto simp: tracks_def snprintf_at_def)

lemma tracks_fold: "tracks bs b t \<Longrightarrow> tracks bs (fold (snprintf_at bs) ps b) (t @ concat ps)"
proof (induction ps arbitrary: b t)
  case Nil
  then show ?case by simp
next
  case (Cons p ps)
  from Cons.IH [OF tracks_step [OF Cons.prems, of p]] show ?case by simp
qed

lemma step_over: "tracks bs b t \<Longrightarrow> jb_over (snprintf_at bs s b) \<longleftrightarrow> bs < length t"
  by (auto simp: tracks_def snprintf_at_def)

lemma json_fill_tracks: "tracks bs (json_fill bs v secret) (wire_text v secret)"
  using tracks_step [OF tracks_fold [OF tracks_init, of bs "pieces v secret"], of "''}''"]
  by (simp add: json_fill_fold concat_pieces)

lemma json_fill_over:
  "jb_over (json_fill bs v secret) \<longleftrightarrow> bs + 1 < length (wire_text v secret)"
proof -
  have "tracks bs (fold (snprintf_at bs) (pieces v secret) jb_init) (concat (pieces v secret))"
    using tracks_fold [OF tracks_init, of bs "pieces v secret"] by simp
  from step_over [OF this, of "''}''"] show ?thesis
    by (simp add: json_fill_fold concat_pieces [symmetric])
qed

lemma json_fill_text:
  "length (wire_text v secret) \<le> bs + 1 \<Longrightarrow>
     jb_text (json_fill bs v secret) = take (bs - 1) (wire_text v secret)"
  using json_fill_tracks [of bs v secret] json_fill_over [of bs v secret]
  by (simp add: tracks_def)

lemma wire_text_empty_secret: "wire_text v (Some []) = wire_text v None"
  by (simp add: wire_text_def)


lemma json_fill_empty_secret: "json_fill bs v (Some []) = json_fill bs v None"
  by (simp add: json_fill_def)

text \<open>
  Allocating a block at an unused address does not change what an entry's pointers lead
  to.
\<close>

lemma those_map_mono:
  "those (map f xs) = Some ys \<Longrightarrow> (\<And>x y. x \<in> set xs \<Longrightarrow> f x = Some y \<Longrightarrow> g x = Some y) \<Longrightarrow>
     those (map g xs) = Some ys"
proof (induction xs arbitrary: ys)
  case Nil
  then show ?case by simp
next
  case (Cons x xs)
  then show ?case
    by (auto split: option.splits)
qed

lemma cstr_fresh:
  "heap w n = None \<Longrightarrow> heap w' = (heap w)(n \<mapsto> b) \<Longrightarrow> cstr w p = Some s \<Longrightarrow> cstr w' p = Some s"
  by (auto simp: cstr_def split: option.splits block.splits)

lemma slot_fresh:
  "heap w n = None \<Longrightarrow> heap w' = (heap w)(n \<mapsto> b) \<Longrightarrow> slot w p i = Some q \<Longrightarrow> slot w' p i = Some q"
  by (auto simp: slot_def split: option.splits block.splits if_splits)

lemma label_at_fresh:
  assumes "heap w n = None" "heap w' = (heap w)(n \<mapsto> b)" "label_at w e i = Some kv"
  shows "label_at w' e i = Some kv"
proof -
  from assms(3) obtain k x ks xs where
    s: "slot w (labels_keys e) i = Some k" "slot w (labels_values e) i = Some x"
    and c: "cstr w k = Some ks" "cstr w x = Some xs" and kv: "kv = (ks, xs)"
    by (auto simp: label_at_def split: option.splits)
  show ?thesis
    using slot_fresh [OF assms(1,2) s(1)] slot_fresh [OF assms(1,2) s(2)]
      cstr_fresh [OF assms(1,2) c(1)] cstr_fresh [OF assms(1,2) c(2)] kv
    by (simp add: label_at_def)
qed

lemma load_entry_fresh:
  assumes "heap w n = None" "heap w' = (heap w)(n \<mapsto> b)" "load_entry w a = Some v"
  shows "load_entry w' a = Some v"
proof -
  from assms(3) obtain e i m s ls where
    e: "entry_at w a = Some e"
    and c: "cstr w (e_id e) = Some i" "cstr w (e_message e) = Some m" "cstr w (e_source e) = Some s"
    and l: "entry_labels w e = Some ls"
    and v: "v = \<lparr>v_id = i, v_message = m, v_source = s, v_type = e_type e,
                     v_level = e_level e, v_timestamp = e_timestamp e, v_labels = ls\<rparr>"
    by (auto simp: load_entry_def split: option.splits)
  have e': "entry_at w' a = Some e"
    using e assms(1,2) by (auto simp: entry_at_def split: option.splits block.splits)
  have l': "entry_labels w' e = Some ls"
    using l unfolding entry_labels_def
    by (rule those_map_mono) (rule label_at_fresh [OF assms(1,2)])
  show ?thesis
    using e' l' cstr_fresh [OF assms(1,2) c(1)] cstr_fresh [OF assms(1,2) c(2)]
      cstr_fresh [OF assms(1,2) c(3)] v
    by (simp add: load_entry_def)
qed

lemma load_entry_heap:
  assumes "heap w' = heap w"
  shows "load_entry w' a = load_entry w a"
proof -
  have c: "cstr w' = cstr w"
    by (intro ext) (simp add: cstr_def assms cong: option.case_cong)
  have s: "slot w' = slot w"
    by (intro ext) (simp add: slot_def assms cong: option.case_cong)
  have "label_at w' = label_at w"
    by (intro ext) (simp add: label_at_def c s cong: option.case_cong)
  then have l: "entry_labels w' = entry_labels w"
    by (intro ext) (simp add: entry_labels_def)
  have e: "entry_at w' a = entry_at w a"
    using assms by (simp add: entry_at_def)
  show ?thesis
    by (simp add: load_entry_def c l e cong: option.case_cong)
qed

lemma entry_to_json_result:
  assumes "heap_ok w" "load_entry w a = Some v" "fst (next_alloc w) \<noteq> Fails"
  shows "entry_to_json a secret w =
     (Some (next_addr w),
      w\<lparr>allocs := tl (allocs w), next_addr := Suc (next_addr w),
        heap := (heap w)(next_addr w \<mapsto> Chars (jb_text (json_fill buffer_size v secret))),
        ub := (ub w \<or> jb_over (json_fill buffer_size v secret))\<rparr>)"
proof -
  have fresh: "heap w (next_addr w) = None"
    using assms(1) by (simp add: heap_ok_def)
  have m: "malloc (Chars []) w =
      (Some (next_addr w), w\<lparr>allocs := tl (allocs w), heap := (heap w)(next_addr w \<mapsto> Chars []),
         next_addr := Suc (next_addr w)\<rparr>)"
    using assms(3) by (auto simp: malloc_def next_alloc_def new_block_def split: alloc_outcome.splits list.splits)
  have l: "load_entry (w\<lparr>allocs := tl (allocs w), heap := (heap w)(next_addr w \<mapsto> Chars []),
         next_addr := Suc (next_addr w)\<rparr>) a = Some v"
    by (rule load_entry_fresh [OF fresh _ assms(2)]) simp
  show ?thesis
    by (simp add: entry_to_json_def m l Let_def)
qed

lemma entry_to_json_fits:
  assumes "heap_ok w" "load_entry w a = Some v" "fst (next_alloc w) \<noteq> Fails"
    and "length (wire_text v secret) \<le> buffer_size + 1"
  shows "fst (entry_to_json a secret w) = Some (next_addr w)"
    and "cstr (snd (entry_to_json a secret w)) (Some (next_addr w)) =
           Some (take (buffer_size - 1) (wire_text v secret))"
    and "ub (snd (entry_to_json a secret w)) = ub w"
  using json_fill_text [OF assms(4)] json_fill_over [of buffer_size v secret] assms(4)
  by (simp_all add: entry_to_json_result [OF assms(1-3)] cstr_def)

lemma send_entry_trace:
  assumes "connected c" "heap_ok w" "load_entry w a = Some v" "Fails \<notin> set (take 2 (allocs w))"
    and "secret = (if connection_type (config c) = LOGFLUX_CONN_TCP
                   then Some (shared_secret (config c)) else None)"
  shows "trace (snd (logflux_client_send_entry (Some c) (Some a) w)) =
           trace w @ [Send (socket_fd c) (jb_text (json_fill buffer_size v secret) @ [CHR 0x0A])]"
proof -
  have a1: "fst (next_alloc w) \<noteq> Fails"
    using assms(4) by (auto simp: fails_take2 next_alloc_def split: list.splits)
  have a2: "\<not> (case tl (allocs w) of [] \<Rightarrow> False | x # _ \<Rightarrow> x = Fails)"
    using assms(4) by (auto simp: fails_take2 split: list.splits)
  show ?thesis
    using assms(1) a2
    by (simp add: logflux_client_send_entry_def entry_to_json_result [OF assms(2,3) a1]
        assms(5) [symmetric] cstr_def send_json_data_def malloc_eq new_block_def syscall_def
        free_def Let_def split: prod.splits)
qed

lemma send_entry_result:
  assumes "connected c" "heap_ok w" "load_entry w a = Some v" "Fails \<notin> set (take 2 (allocs w))"
    and "secret = (if connection_type (config c) = LOGFLUX_CONN_TCP
                   then Some (shared_secret (config c)) else None)"
    and "b = json_fill buffer_size v secret"
  shows "logflux_client_send_entry (Some c) (Some a) w =
           (if (case sys w of [] \<Rightarrow> - 1 | r # _ \<Rightarrow> r) = int (length (jb_text b)) + 1
            then LOGFLUX_OK else LOGFLUX_ERROR_CONNECTION,
            w\<lparr>allocs := tl (tl (allocs w)), next_addr := Suc (Suc (next_addr w)),
              sys := tl (sys w),
              trace := trace w @ [Send (socket_fd c) (jb_text b @ [CHR 0x0A])],
              ub := (ub w \<or> jb_over b)\<rparr>)"
proof -
  have a1: "fst (next_alloc w) \<noteq> Fails"
    using assms(4) by (auto simp: fails_take2 next_alloc_def split: list.splits)
  have a2: "\<not> (case tl (allocs w) of [] \<Rightarrow> False | x # _ \<Rightarrow> x = Fails)"
    using assms(4) by (auto simp: fails_take2 split: list.splits)
  have fresh: "heap w (next_addr w) = None" "heap w (Suc (next_addr w)) = None"
    using assms(2) by (simp_all add: heap_ok_def)
  have h: "(heap w)(next_addr w := None, Suc (next_addr w) := None) = heap w"
    using fresh by (auto simp: fun_eq_iff)
  show ?thesis
    using assms(1) a2 h
    by (auto simp: logflux_client_send_entry_def entry_to_json_result [OF assms(2,3) a1]
        assms(5) [symmetric] assms(6) [symmetric] cstr_def send_json_data_def malloc_eq
        new_block_def syscall_def free_def Let_def fun_upd_twist split: prod.splits)
qed

lemma send_entry_fits:
  assumes "connected c" "heap_ok w" "load_entry w a = Some v" "Fails \<notin> set (take 2 (allocs w))"
    and "secret = (if connection_type (config c) = LOGFLUX_CONN_TCP
                   then Some (shared_secret (config c)) else None)"
    and "length (wire_text v secret) < buffer_size"
  shows "logflux_client_send_entry (Some c) (Some a) w =
           (if (case sys w of [] \<Rightarrow> - 1 | r # _ \<Rightarrow> r) = int (length (wire_text v secret)) + 1
            then LOGFLUX_OK else LOGFLUX_ERROR_CONNECTION,
            w\<lparr>allocs := tl (tl (allocs w)), next_addr := Suc (Suc (next_addr w)),
              sys := tl (sys w),
              trace := trace w @ [Send (socket_fd c) (wire_text v secret @ [CHR 0x0A])]\<rparr>)"
proof -
  from assms(6) have "length (wire_text v secret) \<le> buffer_size - 1" by arith
  then have "take (buffer_size - 1) (wire_text v secret) = wire_text v secret" by simp
  moreover from assms(6) have le: "length (wire_text v secret) \<le> buffer_size + 1" by simp
  ultimately have t: "jb_text (json_fill buffer_size v secret) = wire_text v secret"
    using json_fill_text [of v secret buffer_size] by simp
  have o: "\<not> jb_over (json_fill buffer_size v secret)"
    using le by (simp add: json_fill_over)
  show ?thesis
    by (simp add: send_entry_result [OF assms(1-5) refl] t o)
qed

subsection \<open>The payload as a JSON text\<close>

text \<open>
  The recogniser on the pieces of the encoded text: names, strings, numbers, members and the
  labels object. The encoded text of an entry without characters to escape denotes the object
  with the members of the specification, and no proper prefix of such a text is an object.
\<close>

lemma run_append:
  "run s (a @ b) = (case run s a of None \<Rightarrow> None | Some s' \<Rightarrow> run s' b)"
  by (induction a arbitrary: s) (auto split: option.splits)

lemma run_key:
  "list_all plain k \<Longrightarrow> run (PInKey acc, ms, st) (k @ rest) = run (PInKey (acc @ k), ms, st) rest"
proof (induction k arbitrary: acc)
  case Nil
  then show ?case by simp
next
  case (Cons c k)
  then have p: "plain c" "list_all plain k"
    by simp_all
  then have "c \<noteq> CHR 0x22"
    by (simp add: plain_def)
  with p Cons.IH [of "acc @ [c]"] show ?case by simp
qed

lemma run_string:
  "list_all plain s \<Longrightarrow>
     run (PInString k acc, ms, st) (s @ rest) = run (PInString k (acc @ s), ms, st) rest"
proof (induction s arbitrary: acc)
  case Nil
  then show ?case by simp
next
  case (Cons c s)
  then have p: "plain c" "list_all plain s"
    by simp_all
  then have "c \<noteq> CHR 0x22"
    by (simp add: plain_def)
  with p Cons.IH [of "acc @ [c]"] show ?case by simp
qed

lemma digit_cases:
  "0 \<le> d \<Longrightarrow> d < 10 \<Longrightarrow>
     d = 0 \<or> d = 1 \<or> d = 2 \<or> d = 3 \<or> d = 4 \<or> d = 5 \<or> d = 6 \<or> d = 7 \<or> d = 8 \<or> (d::int) = 9"
  by arith

lemma digit_char_props:
  assumes "0 \<le> d" "d < 10"
  shows "is_digit (digit_char d)" "digit_val (digit_char d) = d"
    "0 < d \<Longrightarrow> digit_char d \<noteq> CHR ''0''"
  using digit_cases [OF assms]
  by (auto simp: digit_char_def is_digit_def digit_val_def)

lemma dec_snoc: "dec (ds @ [c]) = 10 * dec ds + digit_val c"
  by (simp add: dec_def)

lemma digits_props:
  "0 \<le> n \<Longrightarrow>
     digits n \<noteq> [] \<and> list_all is_digit (digits n) \<and> dec (digits n) = n \<and>
     (0 < n \<longrightarrow> hd (digits n) \<noteq> CHR ''0'')"
proof (induction n rule: digits.induct)
  case (1 n)
  show ?case
  proof (cases "n < 10")
    case True
    with "1.prems" show ?thesis
      by (subst (1 2 3 4) digits.simps) (simp add: digit_char_props dec_def)
  next
    case False
    then have "0 \<le> n div 10" "0 < n div 10" "0 \<le> n mod 10" "n mod 10 < 10"
      by simp_all
    with "1.IH" [OF False] False show ?thesis
      by (subst (1 2 3 4) digits.simps) (simp add: digit_char_props dec_snoc)
  qed
qed

lemma run_digits:
  "list_all is_digit ds \<Longrightarrow> acc \<noteq> [] \<Longrightarrow> acc \<noteq> ''0'' \<or> ds = [] \<Longrightarrow>
     run (PInNumber k neg acc, ms, st) (ds @ rest) = run (PInNumber k neg (acc @ ds), ms, st) rest"
proof (induction ds arbitrary: acc)
  case Nil
  then show ?case by simp
next
  case (Cons c ds)
  then have a: "acc \<noteq> ''0''" "is_digit c" "list_all is_digit ds" by simp_all
  from Cons.prems(2) have "acc @ [c] \<noteq> []" "acc @ [c] \<noteq> ''0''"
    by (cases acc; simp)+
  with Cons.IH [of "acc @ [c]"] a show ?case by simp
qed

lemma run_natural:
  assumes "0 \<le> n"
  shows "run (PValue k, ms, st) (digits n @ rest) = run (PInNumber k False (digits n), ms, st) rest"
    and "run (PMinus k, ms, st) (digits n @ rest) = run (PInNumber k True (digits n), ms, st) rest"
proof -
  from digits_props [OF assms] obtain d ds where d: "digits n = d # ds"
    and p: "is_digit d" "list_all is_digit ds" "0 < n \<longrightarrow> d \<noteq> CHR ''0''"
    by (cases "digits n") auto
  have z: "[d] \<noteq> ''0'' \<or> ds = []"
  proof (cases "n = 0")
    case True
    then have "digits n = ''0''" by (subst digits.simps) (simp add: digit_char_def)
    with d show ?thesis by simp
  next
    case False
    with assms p(3) show ?thesis by simp
  qed
  have nq: "d \<noteq> CHR 0x22" "d \<noteq> CHR ''{''" "d \<noteq> CHR ''-''"
    using p(1) by (auto simp: is_digit_def)
  show "run (PValue k, ms, st) (digits n @ rest) = run (PInNumber k False (digits n), ms, st) rest"
    using run_digits [OF p(2) _ z, of k False ms st rest] p(1) nq by (simp add: d)
  show "run (PMinus k, ms, st) (digits n @ rest) = run (PInNumber k True (digits n), ms, st) rest"
    using run_digits [OF p(2) _ z, of k True ms st rest] p(1) by (simp add: d)
qed

lemma run_int:
  "run (PValue k, ms, st) (show_int i @ rest) =
     run (PInNumber k (i < 0) (digits \<bar>i\<bar>), ms, st) rest"
  by (simp add: show_int_def run_natural)

lemma number_value: "(if i < 0 then - dec (digits \<bar>i\<bar>) else dec (digits \<bar>i\<bar>)) = i"
proof (cases "i < 0")
  case True
  then have "\<bar>i\<bar> = - i" "0 \<le> - i" by simp_all
  with digits_props [of "- i"] True show ?thesis by simp
next
  case False
  then have "\<bar>i\<bar> = i" "0 \<le> i" by simp_all
  with digits_props [of i] False show ?thesis by simp
qed

lemma run_member:
  assumes "m = PFirstKey \<or> m = PKey" "list_all plain k" "list_all plain x"
  shows \<open>run (m, ms, st) (''"'' @ k @ ''":"'' @ x @ ''"'' @ rest) =
           run (PAfter, ms @ [(k, JString x)], st) rest\<close>
  using assms by (auto simp: run_key run_string)

lemma run_labels:
  assumes "m = PFirstKey \<or> m = PKey"
    and "list_all (\<lambda>(k, x). list_all plain k \<and> list_all plain x) (l # ls)"
  shows \<open>run (m, ms, st)
            (comma_join (map (\<lambda>(k, x). ''"'' @ k @ ''":"'' @ x @ ''"'') (l # ls)) @ rest) =
           run (PAfter, ms @ map (\<lambda>(k, x). (k, JString x)) (l # ls), st) rest\<close>
  using assms
proof (induction ls arbitrary: l m ms)
  case Nil
  obtain k x where l: "l = (k, x)" by (cases l)
  with Nil run_member [of m k x ms st rest] show ?case by simp
next
  case (Cons l' ls)
  obtain k x where l: "l = (k, x)" by (cases l)
  from Cons.prems have p: "list_all plain k" "list_all plain x"
    "list_all (\<lambda>(k, x). list_all plain k \<and> list_all plain x) (l' # ls)"
    by (simp_all add: l)
  have ih: \<open>run (PKey, ms @ [(k, JString x)], st)
            (comma_join (map (\<lambda>(k, x). ''"'' @ k @ ''":"'' @ x @ ''"'') (l' # ls)) @ rest) =
           run (PAfter, (ms @ [(k, JString x)]) @ map (\<lambda>(k, x). (k, JString x)) (l' # ls), st) rest\<close>
    by (rule Cons.IH [OF _ p(3)]) simp
  have \<open>run (m, ms, st)
            (comma_join (map (\<lambda>(k, x). ''"'' @ k @ ''":"'' @ x @ ''"'') (l # l' # ls)) @ rest) =
        run (m, ms, st) (''"'' @ k @ ''":"'' @ x @ ''"'' @
          ('','' @ comma_join (map (\<lambda>(k, x). ''"'' @ k @ ''":"'' @ x @ ''"'') (l' # ls)) @ rest))\<close>
    by (simp add: l)
  also have \<open>\<dots> = run (PAfter, ms @ [(k, JString x)], st)
          ('','' @ comma_join (map (\<lambda>(k, x). ''"'' @ k @ ''":"'' @ x @ ''"'') (l' # ls)) @ rest)\<close>
    by (rule run_member [OF Cons.prems(1) p(1,2)])
  also have \<open>\<dots> = run (PKey, ms @ [(k, JString x)], st)
          (comma_join (map (\<lambda>(k, x). ''"'' @ k @ ''":"'' @ x @ ''"'') (l' # ls)) @ rest)\<close>
    by (simp add: step_after_def)
  also note ih
  finally show ?case by (simp add: l)
qed

lemma wire_text_parses:
  assumes "plain_view v" and "case secret of None \<Rightarrow> True | Some s \<Rightarrow> list_all plain s"
  shows "parse_object (wire_text v secret) = Some (JObject (entry_members v secret))"
proof -
  from assms(1) have p: "list_all plain (v_id v)" "list_all plain (v_message v)"
    "list_all plain (v_source v)"
    "list_all (\<lambda>(k, x). list_all plain k \<and> list_all plain x) (v_labels v)"
    by (simp_all add: plain_view_def)
  show ?thesis
  proof (cases "v_labels v")
    case Nil
    with p assms(2) show ?thesis
      by (auto simp: wire_text_def entry_members_def parse_object_def run_key run_string run_int
          number_value step_after_def plain_def is_digit_def split: option.splits)
  next
    case (Cons l ls)
    with p(4) have q: "list_all (\<lambda>(k, x). list_all plain k \<and> list_all plain x) (l # ls)"
      by simp
    note r = run_labels [OF _ q, of PFirstKey, simplified]
    from p assms(2) Cons show ?thesis
      by (auto simp: wire_text_def entry_members_def parse_object_def run_key run_string run_int
          number_value step_after_def plain_def is_digit_def r split: option.splits)
  qed
qed

lemma parse_object_proper_prefix:
  assumes "parse_object (a @ b) = Some j" "b \<noteq> []"
  shows "parse_object a = None"
proof -
  from assms(1) obtain s where s: "run (PStart, [], []) a = Some s"
    by (auto simp: parse_object_def run_append split: option.splits)
  obtain m ms st where m: "s = (m, ms, st)" by (cases s)
  obtain c cs where b: "b = c # cs" using assms(2) by (cases b) auto
  have "\<not> (\<exists>x. m = PDone x)"
  proof
    assume "\<exists>x. m = PDone x"
    then have "run s b = None" by (auto simp: m b)
    with assms(1) s show False by (simp add: parse_object_def run_append)
  qed
  with s m show ?thesis
    by (cases m) (simp_all add: parse_object_def)
qed

lemma forged_world_load: "load_entry forged_world 0 = Some forged_view"
  by (simp add: forged_world_def forged_view_def run_defs read_defs)

lemma forged_world_heap_ok: "heap_ok forged_world"
  by (simp add: forged_world_def run_defs heap_ok_def)

lemma forged_world_state:
  "allocs forged_world = []" "next_addr forged_world = 4" "\<not> ub forged_world"
  "trace forged_world = []" "sys forged_world = []"
  by (simp_all add: forged_world_def run_defs)

lemma forged_text: "wire_text forged_view None = forged_payload"
  by (simp add: wire_text_def forged_view_def forged_payload_def forged_message_def
      show_int_1 show_int_6 show_int_ts sample_uuid_def)

lemma forged_parse:
  "parse_object forged_payload =
     Some (JObject
       [(''id'', JString ''123e4567-e89b-12d3-a456-426614174000''),
        (''message'', JString ''hi''), (''shared_secret'', JString ''forged''),
        (''source'', JString ''c-sdk''), (''entry_type'', JNumber 1), (''level'', JNumber 6),
        (''timestamp'', JNumber 1700000000)])"
  by (simp add: forged_payload_def parse_object_def plain_def is_digit_def step_after_def
      dec_def digit_val_def)

lemma members_no_secret: "''shared_secret'' \<notin> set (map fst (entry_members v None))"
  by (simp add: entry_members_def)

lemma entry_members_empty_secret: "entry_members v (Some []) = entry_members v None"
  by (simp add: entry_members_def)


lemma two_labels_plain: "plain_view two_labels_view"
  by (simp add: plain_view_def two_labels_view_def sample_uuid_def plain_def)


lemma truncated_no_secret_key:
  assumes "plain_view v"
  shows "case parse_object (take n (wire_text v None)) of
           None \<Rightarrow> True
         | Some j \<Rightarrow> ''shared_secret'' \<notin> set (member_keys j)"
proof (cases "n < length (wire_text v None)")
  case True
  have p: "parse_object (take n (wire_text v None) @ drop n (wire_text v None)) =
      Some (JObject (entry_members v None))"
    using wire_text_parses [OF assms, of None] by simp
  from True have "drop n (wire_text v None) \<noteq> []" by simp
  from parse_object_proper_prefix [OF p this] show ?thesis by simp
next
  case False
  then have "take n (wire_text v None) = wire_text v None" by simp
  with wire_text_parses [OF assms, of None] members_no_secret [of v] show ?thesis
    by simp
qed


lemma two_labels_fields:
  "v_id two_labels_view = sample_uuid" "v_message two_labels_view = ''hello''"
  "v_source two_labels_view = ''c-sdk''" "v_type two_labels_view = 1"
  "v_level two_labels_view = 6" "v_timestamp two_labels_view = 1700000000"
  "v_labels two_labels_view = [(''a'', ''1''), (''a'', ''2'')]"
  by (simp_all add: two_labels_view_def)

lemma forged_length: "length forged_payload < buffer_size"
  by (simp add: forged_payload_def buffer_size_def)

lemma forged_send:
  assumes "connected c" "socket_fd c = 3"
    and "connection_type (config c) = LOGFLUX_CONN_TCP \<longrightarrow> shared_secret (config c) = []"
  shows "trace (snd (logflux_client_send_entry (Some c) (Some 0) forged_world)) =
           [Send 3 (forged_payload @ [CHR 0x0A])]"
proof -
  let ?s = "if connection_type (config c) = LOGFLUX_CONN_TCP
            then Some (shared_secret (config c)) else None"
  have t: "wire_text forged_view ?s = forged_payload"
    using assms(3) by (auto simp: wire_text_empty_secret forged_text)
  have a: "Fails \<notin> set (take 2 (allocs forged_world))"
    by (simp add: forged_world_state)
  have l: "length (wire_text forged_view ?s) < buffer_size"
    unfolding t by (rule forged_length)
  show ?thesis
    using send_entry_fits [OF assms(1) forged_world_heap_ok forged_world_load a refl l]
    by (simp add: t forged_world_state assms(2))
qed


subsection \<open>The layout of the payload\<close>




text \<open>
  C2. \<^verbatim>\<open>entry_to_json\<close> returns \<^verbatim>\<open>NULL\<close> exactly when its buffer cannot be allocated. For
  an entry whose encoded text does not fit (4096 characters or more) but is at most 4097
  characters long, it returns the buffer holding the first 4095 characters of the text: a
  cut payload, and no failure. (A longer text makes a later \<^verbatim>\<open>snprintf\<close> start past the end
  of the buffer; nothing is stated about that case.)
\<close>

theorem encoder_overflow_truncates:
  assumes "heap_ok w" and "load_entry w a = Some v"
  shows "(fst (entry_to_json a secret w) = None \<longleftrightarrow> fst (next_alloc w) = Fails) \<and>
     (fst (next_alloc w) \<noteq> Fails \<and> buffer_size \<le> length (wire_text v secret) \<and>
      length (wire_text v secret) \<le> buffer_size + 1 \<longrightarrow>
        cstr (snd (entry_to_json a secret w)) (fst (entry_to_json a secret w)) =
          Some (take (buffer_size - 1) (wire_text v secret)) \<and>
        ub (snd (entry_to_json a secret w)) = ub w)"
proof (intro conjI impI)
  show "fst (entry_to_json a secret w) = None \<longleftrightarrow> fst (next_alloc w) = Fails"
    by (cases "fst (next_alloc w) = Fails")
      (auto simp: entry_to_json_def malloc_def new_block_def Let_def
        split: prod.splits option.splits alloc_outcome.splits)
next
  assume h: "fst (next_alloc w) \<noteq> Fails \<and> buffer_size \<le> length (wire_text v secret) \<and>
      length (wire_text v secret) \<le> buffer_size + 1"
  then have ok: "fst (next_alloc w) \<noteq> Fails" and le: "length (wire_text v secret) \<le> buffer_size + 1"
    by simp_all
  show "cstr (snd (entry_to_json a secret w)) (fst (entry_to_json a secret w)) =
          Some (take (buffer_size - 1) (wire_text v secret))"
    using entry_to_json_fits(1,2) [OF assms ok le] by simp
  show "ub (snd (entry_to_json a secret w)) = ub w"
    by (rule entry_to_json_fits(3) [OF assms ok le])
qed

theorem encoder_overflow_truncates_witness:
  "heap_ok (long_world 3973) \<and> load_entry (long_world 3973) 0 = Some (long_view 3973) \<and>
   fst (next_alloc (long_world 3973)) \<noteq> Fails \<and>
   buffer_size \<le> length (wire_text (long_view 3973) None) \<and>
   length (wire_text (long_view 3973) None) \<le> buffer_size + 1 \<and>
   fst (entry_to_json 0 None (long_world 3973)) \<noteq> None \<and>
   cstr (snd (entry_to_json 0 None (long_world 3973))) (fst (entry_to_json 0 None (long_world 3973))) =
     Some (take 4095 (wire_text (long_view 3973) None)) \<and>
   \<not> ub (snd (entry_to_json 0 None (long_world 3973)))"
  using encoder_overflow_truncates [OF long_world_heap_ok [of 3973] long_world_load [of 3973],
      where secret = None]
  by (simp add: long_world_heap_ok long_world_load long_world_alloc_ok long_text_length
      buffer_size_def long_world_allocs)

text \<open>
  With a message of 3974 letters the encoded text has 4097 characters and does not fit;
  the encoder still returns a buffer, holding the first 4095 of them.
\<close>

theorem encoder_overflow_counterexample:
  "load_entry (long_world 3974) 0 = Some (long_view 3974) \<and>
   length (wire_text (long_view 3974) None) = 4097 \<and>
   fst (next_alloc (long_world 3974)) \<noteq> Fails \<and>
   fst (entry_to_json 0 None (long_world 3974)) = Some 4 \<and>
   cstr (snd (entry_to_json 0 None (long_world 3974))) (Some 4) =
     Some (take 4095 (wire_text (long_view 3974) None)) \<and>
   \<not> ub (snd (entry_to_json 0 None (long_world 3974)))"
proof -
  have len: "length (wire_text (long_view 3974) None) = 4097"
    by (simp add: long_text_length)
  then have le: "length (wire_text (long_view 3974) None) \<le> buffer_size + 1"
    by (simp add: buffer_size_def)
  show ?thesis
    using entry_to_json_fits [OF long_world_heap_ok long_world_load long_world_alloc_ok le]
    by (simp add: long_world_load long_world_alloc_ok long_world_allocs len buffer_size_def)
qed

subsection \<open>Connection state\<close>

lemma send_entry_not_connected:
  "\<not> connected c \<Longrightarrow> logflux_client_send_entry (Some c) (Some a) w = (LOGFLUX_ERROR_NOT_CONNECTED, w)"
  by (simp add: logflux_client_send_entry_def)

text \<open>
  C5. On a client that is not connected, \<^verbatim>\<open>logflux_client_send_entry\<close> returns NotConnected
  for every entry and leaves the world as it was: nothing is allocated or encoded, no system
  call is made, the trace does not grow.
\<close>

theorem send_entry_requires_connection:
  "\<not> connected c \<Longrightarrow>
     logflux_client_send_entry (Some c) (Some a) w = (LOGFLUX_ERROR_NOT_CONNECTED, w)"
  unfolding logflux_client_send_entry_def by simp

theorem send_entry_requires_connection_witness:
  "\<not> connected (sample_client\<lparr>connected := False\<rparr>) \<and>
   logflux_client_send_entry (Some (sample_client\<lparr>connected := False\<rparr>)) (Some 0) two_labels_world =
     (LOGFLUX_ERROR_NOT_CONNECTED, two_labels_world)"
  using send_entry_requires_connection [of "sample_client\<lparr>connected := False\<rparr>" 0 two_labels_world]
  by simp

text \<open>
  C6. On a client that is connected, \<^verbatim>\<open>logflux_client_connect\<close> returns success at once:
  the client (socket descriptor, connected flag, configuration) and the world are unchanged.
\<close>

theorem connect_idempotent:
  "connected c \<Longrightarrow> logflux_client_connect (Some c) w = (LOGFLUX_OK, Some c, w)"
  unfolding logflux_client_connect_def by simp

theorem connect_idempotent_witness:
  "connected sample_client \<and> socket_fd sample_client = 3 \<and>
   logflux_client_connect (Some sample_client) two_labels_world =
     (LOGFLUX_OK, Some sample_client, two_labels_world)"
  using connect_idempotent [of sample_client two_labels_world]
  by (simp add: sample_client_def)

subsection \<open>Batches\<close>

lemma send_batch_loop_eq:
  "i \<le> n \<Longrightarrow> n \<le> length es \<Longrightarrow>
     send_batch_loop c es n i w = send_each c (drop i (take n es)) w"
proof (induction c es n i w rule: send_batch_loop.induct)
  case (1 c entries n i w)
  show ?case
  proof (cases "i < n")
    case False
    with "1.prems" show ?thesis
      by (subst send_batch_loop.simps) simp
  next
    case True
    with "1.prems" have il: "i < length entries" by simp
    have d: "drop i (take n entries) = entries ! i # drop (Suc i) (take n entries)"
      using True "1.prems" by (simp add: Cons_nth_drop_Suc [symmetric])
    obtain r w1 where r: "logflux_client_send_entry (Some c) (Some (entries ! i)) w = (r, w1)"
      by (cases "logflux_client_send_entry (Some c) (Some (entries ! i)) w")
    show ?thesis
    proof (cases "r = LOGFLUX_OK")
      case False
      then show ?thesis
        using True il r by (subst send_batch_loop.simps) (simp add: d)
    next
      case ok: True
      have "send_batch_loop c entries n (Suc i) w1 = send_each c (drop (Suc i) (take n entries)) w1"
        using "1.IH" [OF True il r [symmetric] refl] ok True "1.prems" by simp
      then show ?thesis
        using True il r ok by (subst send_batch_loop.simps) (simp add: d)
    qed
  qed
qed

lemma send_each_first_failure:
  "fst (send_each c es w) \<noteq> LOGFLUX_OK \<Longrightarrow>
     \<exists>k<length es. fst (send_each c (take k es) w) = LOGFLUX_OK \<and>
       send_each c es w =
         logflux_client_send_entry (Some c) (Some (es ! k)) (snd (send_each c (take k es) w))"
proof (induction es arbitrary: w)
  case Nil
  then show ?case by simp
next
  case (Cons e es)
  obtain r w1 where r: "logflux_client_send_entry (Some c) (Some e) w = (r, w1)"
    by (cases "logflux_client_send_entry (Some c) (Some e) w")
  show ?case
  proof (cases "r = LOGFLUX_OK")
    case False
    with r have "fst (send_each c (take 0 (e # es)) w) = LOGFLUX_OK \<and>
       send_each c (e # es) w =
         logflux_client_send_entry (Some c) (Some ((e # es) ! 0)) (snd (send_each c (take 0 (e # es)) w))"
      by simp
    then show ?thesis by blast
  next
    case True
    with r Cons.prems have "fst (send_each c es w1) \<noteq> LOGFLUX_OK" by simp
    from Cons.IH [OF this] obtain k where k: "k < length es"
      "fst (send_each c (take k es) w1) = LOGFLUX_OK"
      "send_each c es w1 =
         logflux_client_send_entry (Some c) (Some (es ! k)) (snd (send_each c (take k es) w1))"
      by blast
    with r True have "Suc k < length (e # es) \<and>
       fst (send_each c (take (Suc k) (e # es)) w) = LOGFLUX_OK \<and>
       send_each c (e # es) w =
         logflux_client_send_entry (Some c) (Some ((e # es) ! Suc k))
           (snd (send_each c (take (Suc k) (e # es)) w))"
      by simp
    then show ?thesis by blast
  qed
qed

lemma send_each_all_ok:
  "fst (send_each c es w) = LOGFLUX_OK \<Longrightarrow> k < length es \<Longrightarrow>
     fst (logflux_client_send_entry (Some c) (Some (es ! k)) (snd (send_each c (take k es) w))) =
       LOGFLUX_OK"
proof (induction es arbitrary: w k)
  case Nil
  then show ?case by simp
next
  case (Cons e es)
  obtain r w1 where r: "logflux_client_send_entry (Some c) (Some e) w = (r, w1)"
    by (cases "logflux_client_send_entry (Some c) (Some e) w")
  with Cons.prems(1) have ok: "r = LOGFLUX_OK" and rest: "fst (send_each c es w1) = LOGFLUX_OK"
    by (auto split: if_splits)
  show ?case
  proof (cases k)
    case 0
    with r ok show ?thesis by simp
  next
    case (Suc j)
    with Cons.prems(2) have "j < length es" by simp
    from Cons.IH [OF rest this] r ok Suc show ?thesis by simp
  qed
qed

lemma send_batch_eq_send_each:
  assumes "0 < n" "n \<le> length es"
  shows "logflux_client_send_batch (Some c) (Some es) n w = send_each c (take n es) w"
proof -
  from assms obtain e es' where t: "take n es = e # es'"
    by (cases "take n es") auto
  show ?thesis
  proof (cases "connected c")
    case True
    with assms show ?thesis
      using send_batch_loop_eq [of 0 n es c w] by (simp add: logflux_client_send_batch_def)
  next
    case False
    with assms show ?thesis
      by (simp add: logflux_client_send_batch_def t send_entry_not_connected)
  qed
qed

lemma batch_first_send:
  "logflux_client_send_entry (Some sample_client) (Some 0) (batch_world plan) =
     (if (case plan of [] \<Rightarrow> - 1 | r # _ \<Rightarrow> r) = 154
      then LOGFLUX_OK else LOGFLUX_ERROR_CONNECTION,
      (batch_world plan)\<lparr>allocs := [], next_addr := 10, sys := tl plan,
         trace := [Send 3 (wire_text hello_view (Some ''s3cret'') @ [CHR 0x0A])]\<rparr>)"
proof -
  have len: "length (wire_text hello_view (Some ''s3cret'')) < buffer_size"
    by (simp add: batch_text_lengths buffer_size_def)
  have a: "Fails \<notin> set (take 2 (allocs (batch_world plan)))"
    by (simp add: batch_world_state)
  show ?thesis
    using send_entry_fits [OF sample_client_facts(1) batch_world_heap_ok batch_world_load(1) a
        sample_client_facts(3) [symmetric] len]
    by (simp add: batch_world_state batch_text_lengths sample_client_facts)
qed

lemma batch_second_send:
  "logflux_client_send_entry (Some sample_client) (Some 4)
     ((batch_world plan)\<lparr>allocs := [], next_addr := 10, sys := tl plan,
         trace := [Send 3 (wire_text hello_view (Some ''s3cret'') @ [CHR 0x0A])]\<rparr>) =
     (if (case tl plan of [] \<Rightarrow> - 1 | r # _ \<Rightarrow> r) = 152
      then LOGFLUX_OK else LOGFLUX_ERROR_CONNECTION,
      (batch_world plan)\<lparr>allocs := [], next_addr := 12, sys := tl (tl plan),
         trace := [Send 3 (wire_text hello_view (Some ''s3cret'') @ [CHR 0x0A]),
                   Send 3 (wire_text bye_view (Some ''s3cret'') @ [CHR 0x0A])]\<rparr>)"
  (is "logflux_client_send_entry _ _ ?W = _")
proof -
  have len: "length (wire_text bye_view (Some ''s3cret'')) < buffer_size"
    by (simp add: batch_text_lengths buffer_size_def)
  have a: "Fails \<notin> set (take 2 (allocs ?W))"
    by simp
  have h: "heap_ok ?W"
    using batch_world_heap_ok [of plan] by (simp add: heap_ok_def batch_world_state)
  have l: "load_entry ?W 4 = Some bye_view"
    using load_entry_heap [of ?W "batch_world plan" 4] by (simp add: batch_world_load)
  show ?thesis
    using send_entry_fits [OF sample_client_facts(1) h l a sample_client_facts(3) [symmetric] len]
    by (simp add: batch_text_lengths sample_client_facts)
qed

text \<open>
  C4. \<^verbatim>\<open>logflux_client_send_batch\<close> returns InvalidParam, changing nothing, when the client
  or the array is absent or the count is 0. Otherwise, for a count within the array, it is
  \<open>send_each\<close> on the first \<open>n\<close> entries: \<^verbatim>\<open>send_entry\<close> in array order until one fails.
  When the result is not success, there is an index \<open>k\<close> such that the \<open>k\<close> entries before
  it were sent with success and the batch's result and final world are exactly those of
  \<^verbatim>\<open>send_entry\<close> on entry \<open>k\<close>, so nothing after it was attempted. When the result is
  success, every entry's \<^verbatim>\<open>send_entry\<close> returned success.
\<close>

theorem send_batch_stops_at_first_failure:
  "(client = None \<or> entries = None \<or> n = 0 \<longrightarrow>
      logflux_client_send_batch client entries n w = (LOGFLUX_ERROR_INVALID_PARAM, w)) \<and>
   (0 < n \<and> n \<le> length es \<longrightarrow>
      logflux_client_send_batch (Some c) (Some es) n w = send_each c (take n es) w \<and>
      (fst (logflux_client_send_batch (Some c) (Some es) n w) \<noteq> LOGFLUX_OK \<longrightarrow>
         (\<exists>k<n. fst (send_each c (take k es) w) = LOGFLUX_OK \<and>
            logflux_client_send_batch (Some c) (Some es) n w =
              logflux_client_send_entry (Some c) (Some (es ! k)) (snd (send_each c (take k es) w)))) \<and>
      (fst (logflux_client_send_batch (Some c) (Some es) n w) = LOGFLUX_OK \<longrightarrow>
         (\<forall>k<n. fst (logflux_client_send_entry (Some c) (Some (es ! k))
                       (snd (send_each c (take k es) w))) = LOGFLUX_OK)))"
proof (intro conjI impI)
  assume "client = None \<or> entries = None \<or> n = 0"
  then show "logflux_client_send_batch client entries n w = (LOGFLUX_ERROR_INVALID_PARAM, w)"
    by (auto simp: logflux_client_send_batch_def split: option.splits)
next
  assume "0 < n \<and> n \<le> length es"
  then show "logflux_client_send_batch (Some c) (Some es) n w = send_each c (take n es) w"
    by (simp add: send_batch_eq_send_each)
next
  assume n: "0 < n \<and> n \<le> length es"
    and f: "fst (logflux_client_send_batch (Some c) (Some es) n w) \<noteq> LOGFLUX_OK"
  from n have eq: "logflux_client_send_batch (Some c) (Some es) n w = send_each c (take n es) w"
    by (simp add: send_batch_eq_send_each)
  with f have "fst (send_each c (take n es) w) \<noteq> LOGFLUX_OK" by simp
  from send_each_first_failure [OF this] obtain k where k: "k < length (take n es)"
    "fst (send_each c (take k (take n es)) w) = LOGFLUX_OK"
    "send_each c (take n es) w =
       logflux_client_send_entry (Some c) (Some (take n es ! k))
         (snd (send_each c (take k (take n es)) w))"
    by blast
  from k(1) n have kn: "k < n" by simp
  then have "take k (take n es) = take k es" "take n es ! k = es ! k"
    by (simp_all add: min_def)
  with k eq kn show "\<exists>k<n. fst (send_each c (take k es) w) = LOGFLUX_OK \<and>
            logflux_client_send_batch (Some c) (Some es) n w =
              logflux_client_send_entry (Some c) (Some (es ! k)) (snd (send_each c (take k es) w))"
    by auto
next
  assume n: "0 < n \<and> n \<le> length es"
    and f: "fst (logflux_client_send_batch (Some c) (Some es) n w) = LOGFLUX_OK"
  from n have eq: "logflux_client_send_batch (Some c) (Some es) n w = send_each c (take n es) w"
    by (simp add: send_batch_eq_send_each)
  with f have ok: "fst (send_each c (take n es) w) = LOGFLUX_OK" by simp
  show "\<forall>k<n. fst (logflux_client_send_entry (Some c) (Some (es ! k))
                       (snd (send_each c (take k es) w))) = LOGFLUX_OK"
  proof (intro allI impI)
    fix k assume kn: "k < n"
    with n have "k < length (take n es)" by simp
    from send_each_all_ok [OF ok this] kn
    show "fst (logflux_client_send_entry (Some c) (Some (es ! k))
                       (snd (send_each c (take k es) w))) = LOGFLUX_OK"
      by (simp add: min_def)
  qed
qed

theorem send_batch_stops_at_first_failure_witness:
  "logflux_client_send_batch None (Some [0, 4]) 2 (batch_world []) =
     (LOGFLUX_ERROR_INVALID_PARAM, batch_world []) \<and>
   fst (logflux_client_send_batch (Some sample_client) (Some [0, 4]) 2 (batch_world [])) =
     LOGFLUX_ERROR_CONNECTION \<and>
   trace (snd (logflux_client_send_batch (Some sample_client) (Some [0, 4]) 2 (batch_world []))) =
     [Send 3 (wire_text hello_view (Some ''s3cret'') @ [CHR 0x0A])] \<and>
   fst (logflux_client_send_batch (Some sample_client) (Some [0, 4]) 2 (batch_world [154, 152])) =
     LOGFLUX_OK \<and>
   trace (snd (logflux_client_send_batch (Some sample_client) (Some [0, 4]) 2
            (batch_world [154, 152]))) =
     [Send 3 (wire_text hello_view (Some ''s3cret'') @ [CHR 0x0A]),
      Send 3 (wire_text bye_view (Some ''s3cret'') @ [CHR 0x0A])]"
  using send_batch_stops_at_first_failure [of None "Some [0, 4]" 2 "batch_world []" "[0, 4]"
      sample_client]
    send_batch_stops_at_first_failure [of "Some sample_client" "Some [0, 4]" 2
      "batch_world [154, 152]" "[0, 4]" sample_client]
  by (simp add: batch_first_send batch_second_send [of "[154, 152]", simplified])

subsection \<open>Client factories\<close>

text \<open>
  C9. For a path or host name longer than 255 characters (and, for TCP, a port other than
  0), when the client structure can be allocated, both factories return a client; its
  \<^verbatim>\<open>socket_path\<close>, respectively \<^verbatim>\<open>host\<close>, is the first 255 characters of the string given.
\<close>

theorem factories_truncate_long_names:
  assumes "fst (next_alloc w) \<noteq> Fails" and "255 < length s"
  shows "(\<exists>c. logflux_client_new_unix (Some s) w = (Some c, snd (next_alloc w)) \<and>
            socket_path (config c) = take 255 s \<and> length (socket_path (config c)) = 255) \<and>
         (prt \<noteq> 0 \<longrightarrow>
           (\<exists>c. logflux_client_new_tcp env (Some s) prt w = (Some c, snd (next_alloc w)) \<and>
              host (config c) = take 255 s \<and> length (host (config c)) = 255))"
  using assms
  by (cases "fst (next_alloc w)")
    (auto simp: logflux_client_new_unix_def logflux_client_new_tcp_def strncpy_def Let_def
      zero_client_def split: prod.splits alloc_outcome.splits)

theorem factories_truncate_long_names_witness:
  "fst (next_alloc empty_world) \<noteq> Fails \<and> 255 < length (replicate 300 CHR ''x'') \<and>
   (8080 :: 16 word) \<noteq> 0 \<and>
   map_option (socket_path \<circ> config)
     (fst (logflux_client_new_unix (Some (replicate 300 CHR ''x'')) empty_world)) =
     Some (replicate 255 CHR ''x'') \<and>
   map_option (host \<circ> config)
     (fst (logflux_client_new_tcp no_files (Some (replicate 300 CHR ''x'')) 8080 empty_world)) =
     Some (replicate 255 CHR ''x'')"
proof -
  have ok: "fst (next_alloc empty_world) \<noteq> Fails"
    by (simp add: next_alloc_def empty_world_def)
  have long: "255 < length (replicate 300 CHR ''x'')"
    by simp
  have t: "take 255 (replicate 300 CHR ''x'') = replicate 255 CHR ''x''"
    by simp
  show ?thesis
    using factories_truncate_long_names [OF ok long, of 8080 no_files] ok long
    by (auto simp: t simp del: length_replicate take_replicate)
qed

lemma connect_keeps_config:
  "logflux_client_connect (Some c) w = (r, Some c', w') \<Longrightarrow> config c' = config c"
  by (auto simp: logflux_client_connect_def connect_unix_socket_def connect_tcp_socket_def
      Let_def split: if_splits prod.splits)

lemma entry_to_json_empty_secret: "entry_to_json a (Some []) w = entry_to_json a None w"
  by (simp add: entry_to_json_def json_fill_empty_secret split: prod.splits option.splits)

lemma send_entry_empty_secret:
  assumes "connection_type (config c) = LOGFLUX_CONN_TCP" "shared_secret (config c) = []"
  shows "logflux_client_send_entry (Some c) (Some a) w =
         logflux_client_send_entry
           (Some (c\<lparr>config := (config c)\<lparr>connection_type := LOGFLUX_CONN_UNIX\<rparr>\<rparr>)) (Some a) w"
  using assms
  by (simp add: logflux_client_send_entry_def entry_to_json_empty_secret send_json_data_def
      LOGFLUX_CONN_TCP_def LOGFLUX_CONN_UNIX_def split: prod.splits option.splits)

text \<open>
  C10. When the client structure can be allocated, \<^verbatim>\<open>logflux_client_new_config\<close> returns
  a client whose configuration is the given one, field for field (no default timeout or
  retry values, no secret read from the environment, which the function does not even
  look at), with descriptor -1 and not connected. Connecting does not change the
  configuration. A client with this configuration, when it is a TCP one with an empty
  secret, does with every entry what the same client with the connection type Unix does:
  the encoder writes no shared_secret field. When it is connected and the encoded text of
  the entry, without a secret, is at most 4097 characters long, it sends the first 4095
  characters of this text and a newline. If moreover no string of the entry contains a
  character that JSON requires to be escaped, the payload, when it is a JSON object at all,
  has no shared_secret member; and when the text is shorter than the buffer it is the JSON
  object with the members id, message, source, entry_type, level, timestamp and, for an
  entry with labels, labels.
\<close>

theorem new_config_copies_verbatim:
  assumes "fst (next_alloc w) \<noteq> Fails"
  shows "logflux_client_new_config (Some cfg) w =
           (Some \<lparr>config = cfg, socket_fd = - 1, connected = False\<rparr>, snd (next_alloc w)) \<and>
         (logflux_client_connect (Some \<lparr>config = cfg, socket_fd = - 1, connected = False\<rparr>) w0 =
            (r, Some c, w1) \<longrightarrow> config c = cfg) \<and>
         (config c = cfg \<and> connection_type cfg = LOGFLUX_CONN_TCP \<and> shared_secret cfg = [] \<longrightarrow>
            logflux_client_send_entry (Some c) (Some a) w1 =
            logflux_client_send_entry
              (Some (c\<lparr>config := cfg\<lparr>connection_type := LOGFLUX_CONN_UNIX\<rparr>\<rparr>)) (Some a) w1) \<and>
         (config c = cfg \<and> connected c \<and> connection_type cfg = LOGFLUX_CONN_TCP \<and>
          shared_secret cfg = [] \<and> heap_ok w1 \<and> load_entry w1 a = Some v \<and>
          Fails \<notin> set (take 2 (allocs w1)) \<and> length (wire_text v None) \<le> buffer_size + 1 \<longrightarrow>
            trace (snd (logflux_client_send_entry (Some c) (Some a) w1)) =
              trace w1 @ [Send (socket_fd c)
                (take (buffer_size - 1) (wire_text v None) @ [CHR 0x0A])] \<and>
            (plain_view v \<longrightarrow>
               (case parse_object (take (buffer_size - 1) (wire_text v None)) of
                  None \<Rightarrow> True
                | Some j \<Rightarrow> ''shared_secret'' \<notin> set (member_keys j))) \<and>
            (plain_view v \<and> length (wire_text v None) < buffer_size \<longrightarrow>
               parse_object (take (buffer_size - 1) (wire_text v None)) =
                 Some (JObject
                   ([(''id'', JString (v_id v)), (''message'', JString (v_message v)),
                     (''source'', JString (v_source v)), (''entry_type'', JNumber (v_type v)),
                     (''level'', JNumber (v_level v)),
                     (''timestamp'', JNumber (v_timestamp v))] @
                    (if v_labels v = [] then []
                     else [(''labels'',
                            JObject (map (\<lambda>(k, x). (k, JString x)) (v_labels v)))])))))"
proof (intro conjI impI)
  show "logflux_client_new_config (Some cfg) w =
           (Some \<lparr>config = cfg, socket_fd = - 1, connected = False\<rparr>, snd (next_alloc w))"
    using assms
    by (cases "fst (next_alloc w)")
      (auto simp: logflux_client_new_config_def zero_client_def split: prod.splits)
next
  assume "logflux_client_connect (Some \<lparr>config = cfg, socket_fd = - 1, connected = False\<rparr>) w0 =
            (r, Some c, w1)"
  from connect_keeps_config [OF this] show "config c = cfg" by simp
next
  assume h: "config c = cfg \<and> connection_type cfg = LOGFLUX_CONN_TCP \<and> shared_secret cfg = []"
  then have "connection_type (config c) = LOGFLUX_CONN_TCP" "shared_secret (config c) = []"
    by simp_all
  from send_entry_empty_secret [OF this, of a w1] h
  show "logflux_client_send_entry (Some c) (Some a) w1 =
            logflux_client_send_entry
              (Some (c\<lparr>config := cfg\<lparr>connection_type := LOGFLUX_CONN_UNIX\<rparr>\<rparr>)) (Some a) w1"
    by simp
next
  assume h: "config c = cfg \<and> connected c \<and> connection_type cfg = LOGFLUX_CONN_TCP \<and>
          shared_secret cfg = [] \<and> heap_ok w1 \<and> load_entry w1 a = Some v \<and>
          Fails \<notin> set (take 2 (allocs w1)) \<and> length (wire_text v None) \<le> buffer_size + 1"
  then have s: "(if connection_type (config c) = LOGFLUX_CONN_TCP
                 then Some (shared_secret (config c)) else None) = Some []"
    by simp
  from h have "length (wire_text v None) \<le> buffer_size + 1" by simp
  then have t: "jb_text (json_fill buffer_size v (Some [])) =
      take (buffer_size - 1) (wire_text v None)"
    using json_fill_text [of v None buffer_size] by (simp add: json_fill_empty_secret)
  from h have "connected c" "heap_ok w1" "load_entry w1 a = Some v"
    "Fails \<notin> set (take 2 (allocs w1))" by simp_all
  from send_entry_trace [OF this s [symmetric]] t
  show "trace (snd (logflux_client_send_entry (Some c) (Some a) w1)) =
              trace w1 @ [Send (socket_fd c)
                (take (buffer_size - 1) (wire_text v None) @ [CHR 0x0A])]"
    by simp
next
  assume "plain_view v"
  then show "case parse_object (take (buffer_size - 1) (wire_text v None)) of
                  None \<Rightarrow> True
                | Some j \<Rightarrow> ''shared_secret'' \<notin> set (member_keys j)"
    by (rule truncated_no_secret_key)
next
  assume h: "plain_view v \<and> length (wire_text v None) < buffer_size"
  then have "length (wire_text v None) \<le> buffer_size - 1" by arith
  then have "take (buffer_size - 1) (wire_text v None) = wire_text v None" by simp
  moreover from h have "parse_object (wire_text v None) = Some (JObject (entry_members v None))"
    by (simp add: wire_text_parses)
  ultimately show "parse_object (take (buffer_size - 1) (wire_text v None)) =
                 Some (JObject
                   ([(''id'', JString (v_id v)), (''message'', JString (v_message v)),
                     (''source'', JString (v_source v)), (''entry_type'', JNumber (v_type v)),
                     (''level'', JNumber (v_level v)),
                     (''timestamp'', JNumber (v_timestamp v))] @
                    (if v_labels v = [] then []
                     else [(''labels'',
                            JObject (map (\<lambda>(k, x). (k, JString x)) (v_labels v)))])))"
    by (simp add: entry_members_def)
qed

theorem new_config_copies_verbatim_witness:
  \<open>(fst (next_alloc empty_world) \<noteq> Fails \<and>
   logflux_client_new_config (Some bare_tcp_config) empty_world =
     (Some \<lparr>config = bare_tcp_config, socket_fd = - 1, connected = False\<rparr>, empty_world) \<and>
   timeout_ms bare_tcp_config = 0 \<and> shared_secret bare_tcp_config = [] \<and>
   fst (logflux_client_connect (Some \<lparr>config = bare_tcp_config, socket_fd = - 1, connected = False\<rparr>)
          (two_labels_world\<lparr>sys := [3, 0, 0, 1, 0]\<rparr>)) = LOGFLUX_OK \<and>
   map_option config (fst (snd (logflux_client_connect
      (Some \<lparr>config = bare_tcp_config, socket_fd = - 1, connected = False\<rparr>)
          (two_labels_world\<lparr>sys := [3, 0, 0, 1, 0]\<rparr>)))) = Some bare_tcp_config \<and>
   trace (snd (snd (logflux_client_connect
      (Some \<lparr>config = bare_tcp_config, socket_fd = - 1, connected = False\<rparr>)
          (two_labels_world\<lparr>sys := [3, 0, 0, 1, 0]\<rparr>)))) =
     [Socket AF_INET, SetSockOpt 3 SO_RCVTIMEO 0 0, SetSockOpt 3 SO_SNDTIMEO 0 0,
      InetPton ''127.0.0.1'', Connect 3 (InetAddr ''127.0.0.1'' 8080)] \<and>
   plain_view two_labels_view \<and> length (wire_text two_labels_view None) < buffer_size \<and>
   trace (snd (logflux_client_send_entry
       (Some \<lparr>config = bare_tcp_config, socket_fd = 3, connected = True\<rparr>) (Some 0)
       two_labels_world)) =
     [Send 3 (''{"id":"123e4567-e89b-12d3-a456-426614174000","message":"hello","source":"c-sdk","entry_type":1,"level":6,"timestamp":1700000000,"labels":{"a":"1","a":"2"}}'' @ [CHR 0x0A])] \<and>
   parse_object ''{"id":"123e4567-e89b-12d3-a456-426614174000","message":"hello","source":"c-sdk","entry_type":1,"level":6,"timestamp":1700000000,"labels":{"a":"1","a":"2"}}'' =
     Some (JObject
       [(''id'', JString sample_uuid), (''message'', JString ''hello''),
        (''source'', JString ''c-sdk''), (''entry_type'', JNumber 1), (''level'', JNumber 6),
        (''timestamp'', JNumber 1700000000),
        (''labels'', JObject [(''a'', JString ''1''), (''a'', JString ''2'')])])) \<and>
   logflux_client_send_entry
       (Some \<lparr>config = bare_tcp_config, socket_fd = 3, connected = True\<rparr>) (Some 0)
       two_labels_world =
   logflux_client_send_entry
       (Some \<lparr>config = bare_tcp_config\<lparr>connection_type := LOGFLUX_CONN_UNIX\<rparr>,
              socket_fd = 3, connected = True\<rparr>) (Some 0)
       two_labels_world\<close>
  (is "?A \<and> ?B")
proof -
  have ok: "fst (next_alloc empty_world) \<noteq> Fails"
    by (simp add: next_alloc_def empty_world_def)
  have nx: "snd (next_alloc empty_world) = empty_world"
    by (simp add: next_alloc_def empty_world_def)
  have cfg: "connection_type bare_tcp_config = LOGFLUX_CONN_TCP" "shared_secret bare_tcp_config = []"
    "timeout_ms bare_tcp_config = 0"
    by (simp_all add: bare_tcp_config_def zero_config_def)
  have len: "length (wire_text two_labels_view None) < buffer_size"
    by (simp add: two_labels_text_unix buffer_size_def)
  then have le: "length (wire_text two_labels_view None) \<le> buffer_size + 1"
    by simp
  from len have "length (wire_text two_labels_view None) \<le> buffer_size - 1" by arith
  then have tk: "take (buffer_size - 1) (wire_text two_labels_view None) =
      wire_text two_labels_view None"
    by simp
  have conn: "fst (logflux_client_connect (Some \<lparr>config = bare_tcp_config, socket_fd = - 1, connected = False\<rparr>)
          (two_labels_world\<lparr>sys := [3, 0, 0, 1, 0]\<rparr>)) = LOGFLUX_OK"
    "fst (snd (logflux_client_connect (Some \<lparr>config = bare_tcp_config, socket_fd = - 1, connected = False\<rparr>)
          (two_labels_world\<lparr>sys := [3, 0, 0, 1, 0]\<rparr>))) =
       Some \<lparr>config = bare_tcp_config, socket_fd = 3, connected = True\<rparr>"
    "trace (snd (snd (logflux_client_connect
      (Some \<lparr>config = bare_tcp_config, socket_fd = - 1, connected = False\<rparr>)
          (two_labels_world\<lparr>sys := [3, 0, 0, 1, 0]\<rparr>)))) =
     [Socket AF_INET, SetSockOpt 3 SO_RCVTIMEO 0 0, SetSockOpt 3 SO_SNDTIMEO 0 0,
      InetPton ''127.0.0.1'', Connect 3 (InetAddr ''127.0.0.1'' 8080)]"
    by (simp_all add: logflux_client_connect_def connect_tcp_socket_def set_socket_timeout_def
        syscall_def Let_def cfg LOGFLUX_CONN_TCP_def LOGFLUX_CONN_UNIX_def two_labels_state
        bare_tcp_config_def zero_config_def)
  note t = new_config_copies_verbatim [OF ok, where cfg = bare_tcp_config
        and c = "\<lparr>config = bare_tcp_config, socket_fd = 3, connected = True\<rparr>"
        and ?w1.0 = two_labels_world and a = 0 and v = two_labels_view]
  have a: ?A
    using t [THEN conjunct1] t [THEN conjunct2, THEN conjunct2, THEN conjunct2]
      len le two_labels_plain
    by (simp add: ok nx cfg conn two_labels_heap_ok two_labels_load two_labels_state tk
        two_labels_text_unix two_labels_fields del: take_Cons_numeral)
  have b: ?B
    using t [THEN conjunct2, THEN conjunct2, THEN conjunct1] by (simp add: cfg)
  from a b show ?thesis ..
qed

text \<open>
  The message of an entry is copied into the payload as it is. For an entry with the message
  \<^verbatim>\<open>hi","shared_secret":"forged\<close>, a connected TCP client whose configuration has an empty
  secret sends a JSON object that has a shared_secret member.
\<close>

theorem new_config_copies_verbatim_counterexample:
  "logflux_client_new_config (Some bare_tcp_config) empty_world =
     (Some \<lparr>config = bare_tcp_config, socket_fd = - 1, connected = False\<rparr>, empty_world) \<and>
   connection_type bare_tcp_config = LOGFLUX_CONN_TCP \<and> shared_secret bare_tcp_config = [] \<and>
   load_entry forged_world 0 = Some forged_view \<and> length forged_payload < buffer_size \<and>
   trace (snd (logflux_client_send_entry
       (Some \<lparr>config = bare_tcp_config, socket_fd = 3, connected = True\<rparr>) (Some 0)
       forged_world)) = [Send 3 (forged_payload @ [CHR 0x0A])] \<and>
   parse_object forged_payload =
     Some (JObject
       [(''id'', JString ''123e4567-e89b-12d3-a456-426614174000''),
        (''message'', JString ''hi''), (''shared_secret'', JString ''forged''),
        (''source'', JString ''c-sdk''), (''entry_type'', JNumber 1), (''level'', JNumber 6),
        (''timestamp'', JNumber 1700000000)]) \<and>
   map_option (\<lambda>j. ''shared_secret'' \<in> set (member_keys j)) (parse_object forged_payload) =
     Some True"
proof -
  have n: "logflux_client_new_config (Some bare_tcp_config) empty_world =
     (Some \<lparr>config = bare_tcp_config, socket_fd = - 1, connected = False\<rparr>, empty_world)"
    by (simp add: logflux_client_new_config_def next_alloc_def empty_world_def zero_client_def)
  have cfg: "connection_type bare_tcp_config = LOGFLUX_CONN_TCP" "shared_secret bare_tcp_config = []"
    by (simp_all add: bare_tcp_config_def zero_config_def)
  have s: "trace (snd (logflux_client_send_entry
       (Some \<lparr>config = bare_tcp_config, socket_fd = 3, connected = True\<rparr>) (Some 0)
       forged_world)) = [Send 3 (forged_payload @ [CHR 0x0A])]"
    by (rule forged_send) (simp_all add: cfg)
  show ?thesis
    using n s forged_parse forged_length
    by (simp add: cfg forged_world_load)
qed

end
